theory Spec2Isabelle
  imports Main "HOL-Library.AList" "HOL-Library.Sublist"
begin

section \<open>Data model\<close>

text \<open>
  A pandas frame as the extractor sees it: the column labels in order (labels may repeat,
  as they do in pandas) and the rows, each a list of cells aligned with the labels.
  The reader is called with \<^verbatim>\<open>dtype=str\<close>, so a cell is a string or missing (NaN):
  \<open>None\<close> is the missing value. The row index is not modelled: it is never written
  (\<^verbatim>\<open>index=False\<close>) and row selection keeps the order of the rows.

  A character is a code point below 256, so a \<open>string\<close> is a Python \<^verbatim>\<open>str\<close> over
  U+0000 to U+00FF.
\<close>

type_synonym cell = "string option"

record frame =
  columns :: "string list"
  rows :: "cell list list"

definition wf_frame :: "frame \<Rightarrow> bool" where
  "wf_frame df \<longleftrightarrow>
     distinct (columns df) \<and> list_all (\<lambda>r. length r = length (columns df)) (rows df)"

text \<open>A row read as the record it stands for: a mapping from column label to value.\<close>

definition record_of :: "frame \<Rightarrow> cell list \<Rightarrow> string \<rightharpoonup> cell" where
  "record_of df r = map_of (zip (columns df) r)"

section \<open>Configuration constants\<close>

definition OUTPUT_COLS :: "string list" where
  "OUTPUT_COLS =
    [''FL_DATE'',
     ''OP_UNIQUE_CARRIER'',
     ''MKT_UNIQUE_CARRIER'',
     ''OP_CARRIER_FL_NUM'',
     ''ORIGIN'', ''DEST'',
     ''CRS_DEP_TIME'', ''DEP_TIME'', ''WHEELS_OFF'',
     ''CRS_ARR_TIME'', ''ARR_TIME'', ''WHEELS_ON'',
     ''CANCELLED'', ''DIVERTED'']"

definition US_TERRITORY_STATE_ABR :: "string list" where
  "US_TERRITORY_STATE_ABR = [''PR'', ''VI'', ''GU'', ''AS'', ''MP'']"

text \<open>\<^verbatim>\<open>CANON_MAP\<close> is a dict literal; Python iterates it in the order written.\<close>

definition CANON_MAP :: "(string \<times> string list) list" where
  "CANON_MAP =
    [(''FL_DATE'', [''FL_DATE'', ''FLIGHT_DATE'', ''FLIGHTDATE'']),
     (''OP_UNIQUE_CARRIER'',
        [''OP_UNIQUE_CARRIER'', ''OPERATING_AIRLINE'', ''OPERATINGCARRIER'', ''OP_CARRIER'',
         ''OPERATING_AIRLINE_IATA_CODE'', ''OPERATINGAIRLINEIATACODE'']),
     (''MKT_UNIQUE_CARRIER'',
        [''MKT_UNIQUE_CARRIER'', ''MARKETING_AIRLINE_NETWORK'', ''MARKETINGCARRIER'',
         ''MKT_CARRIER'', ''MKTUNIQUECARRIER'',
         ''REPORTING_AIRLINE'', ''IATA_CODE_REPORTING_AIRLINE'']),
     (''OP_CARRIER_FL_NUM'',
        [''OP_CARRIER_FL_NUM'', ''OP_CARRIER_FLNUM'',
         ''FL_NUM'', ''FLIGHT_NUM'', ''FLIGHT_NUMBER'',
         ''FLIGHT_NUMBER_REPORTING_AIRLINE'', ''FLIGHT_NUMBER_OPERATING_AIRLINE'',
         ''FLIGHT_NUMBER_REPORTINGAIRLINE'', ''FLIGHT_NUMBER_OPERATINGAIRLINE'']),
     (''ORIGIN'', [''ORIGIN'', ''ORIGINAIRPORT'', ''ORIGIN_AIRPORT'']),
     (''DEST'', [''DEST'', ''DESTAIRPORT'', ''DEST_AIRPORT'']),
     (''ORIGIN_STATE_ABR'',
        [''ORIGIN_STATE_ABR'', ''ORIGIN_STATE_ABBREVIATION'', ''ORIGINSTATE'', ''ORIGIN_STATE'']),
     (''DEST_STATE_ABR'',
        [''DEST_STATE_ABR'', ''DEST_STATE_ABBREVIATION'', ''DESTSTATE'', ''DEST_STATE'']),
     (''ORIGIN_COUNTRY_NAME'', [''ORIGIN_COUNTRY_NAME'', ''ORIGINCOUNTRYNAME'', ''ORIGIN_COUNTRY'']),
     (''DEST_COUNTRY_NAME'', [''DEST_COUNTRY_NAME'', ''DESTCOUNTRYNAME'', ''DEST_COUNTRY'']),
     (''CRS_DEP_TIME'', [''CRS_DEP_TIME'', ''CRSDEPTIME'']),
     (''DEP_TIME'', [''DEP_TIME'', ''DEPTIME'']),
     (''WHEELS_OFF'', [''WHEELS_OFF'', ''WHEELSOFF'']),
     (''CRS_ARR_TIME'', [''CRS_ARR_TIME'', ''CRSARRTIME'']),
     (''ARR_TIME'', [''ARR_TIME'', ''ARRTIME'']),
     (''WHEELS_ON'', [''WHEELS_ON'', ''WHEELSON'']),
     (''CANCELLED'', [''CANCELLED'', ''CANCELLED_'']),
     (''DIVERTED'', [''DIVERTED'', ''DIVERTED_''])]"

section \<open>Column normalizer\<close>

text \<open>
  \<^verbatim>\<open>str.upper\<close>, one code point at a time. Below U+0100 it maps a-z to A-Z, the
  accented lower-case letters U+00E0 to U+00FE (U+00F7, the division sign, apart) to the
  letter 32 places lower, and U+00DF (sharp s) to the two letters SS. The upper-case
  forms of U+00B5 and U+00FF lie beyond U+00FF; these two are left as they are, which
  \<open>norm\<close> cannot tell apart from their real upper case, since it deletes either.
\<close>

definition ascii_lowercase :: string where
  "ascii_lowercase = ''abcdefghijklmnopqrstuvwxyz''"

definition ascii_uppercase :: string where
  "ascii_uppercase = ''ABCDEFGHIJKLMNOPQRSTUVWXYZ''"

definition digits :: string where
  "digits = ''0123456789''"

definition latin1_lowercase :: string where
  "latin1_lowercase =
    [CHR 0xE0, CHR 0xE1, CHR 0xE2, CHR 0xE3, CHR 0xE4, CHR 0xE5, CHR 0xE6, CHR 0xE7,
     CHR 0xE8, CHR 0xE9, CHR 0xEA, CHR 0xEB, CHR 0xEC, CHR 0xED, CHR 0xEE, CHR 0xEF,
     CHR 0xF0, CHR 0xF1, CHR 0xF2, CHR 0xF3, CHR 0xF4, CHR 0xF5, CHR 0xF6, CHR 0xF8,
     CHR 0xF9, CHR 0xFA, CHR 0xFB, CHR 0xFC, CHR 0xFD, CHR 0xFE]"

definition latin1_uppercase :: string where
  "latin1_uppercase =
    [CHR 0xC0, CHR 0xC1, CHR 0xC2, CHR 0xC3, CHR 0xC4, CHR 0xC5, CHR 0xC6, CHR 0xC7,
     CHR 0xC8, CHR 0xC9, CHR 0xCA, CHR 0xCB, CHR 0xCC, CHR 0xCD, CHR 0xCE, CHR 0xCF,
     CHR 0xD0, CHR 0xD1, CHR 0xD2, CHR 0xD3, CHR 0xD4, CHR 0xD5, CHR 0xD6, CHR 0xD8,
     CHR 0xD9, CHR 0xDA, CHR 0xDB, CHR 0xDC, CHR 0xDD, CHR 0xDE]"

definition py_upper_char :: "char \<Rightarrow> string" where
  "py_upper_char c =
     (case map_of (zip ascii_lowercase ascii_uppercase) c of
        Some u \<Rightarrow> [u]
      | None \<Rightarrow>
          if c = CHR 0xDF then ''SS''
          else (case map_of (zip latin1_lowercase latin1_uppercase) c of
                  Some u \<Rightarrow> [u]
                | None \<Rightarrow> [c]))"

definition py_upper :: "string \<Rightarrow> string" where
  "py_upper s = concat (map py_upper_char s)"

text \<open>The character class \<^verbatim>\<open>[A-Z0-9]\<close>.\<close>

definition in_AZ09 :: "char \<Rightarrow> bool" where
  "in_AZ09 c \<longleftrightarrow> c \<in> set ascii_uppercase \<or> c \<in> set digits"

text \<open>\<^verbatim>\<open>_norm(s) = re.sub(r"[^A-Z0-9]", "", s.upper())\<close>\<close>

definition norm :: "string \<Rightarrow> string" where
  "norm s = filter in_AZ09 (py_upper s)"

section \<open>Schema reconciler\<close>

text \<open>
  Python dicts are association lists here: \<open>AList.update\<close> overwrites the value of a
  key already there and appends a new key, as assignment to a dict does, and the
  truth value of a dict is that of the list.

  \<^verbatim>\<open>norm_to_actual = {_norm(c): c for c in df.columns}\<close>\<close>

definition norm_to_actual :: "string list \<Rightarrow> (string \<times> string) list" where
  "norm_to_actual cols = foldl (\<lambda>m c. AList.update (norm c) c m) [] cols"

text \<open>The inner loop over the aliases of one canonical name, with its \<^verbatim>\<open>break\<close>.\<close>

fun bind_aliases ::
  "(string \<times> string) list \<Rightarrow> string \<Rightarrow> string list \<Rightarrow> (string \<times> string) list
     \<Rightarrow> (string \<times> string) list" where
  "bind_aliases nta canon [] rename_map = rename_map"
| "bind_aliases nta canon (a # aliases) rename_map =
     (case map_of nta (norm a) of
        Some actual \<Rightarrow> AList.update actual canon rename_map
      | None \<Rightarrow> bind_aliases nta canon aliases rename_map)"

text \<open>The outer loop over \<^verbatim>\<open>CANON_MAP.items()\<close>.\<close>

fun build_rename_map ::
  "(string \<times> string) list \<Rightarrow> (string \<times> string list) list \<Rightarrow> (string \<times> string) list
     \<Rightarrow> (string \<times> string) list" where
  "build_rename_map nta [] rename_map = rename_map"
| "build_rename_map nta ((canon, aliases) # items) rename_map =
     build_rename_map nta items (bind_aliases nta canon aliases rename_map)"

text \<open>\<^verbatim>\<open>df.rename(columns=rename_map)\<close>: every label that is a key is replaced.\<close>

definition rename_label :: "(string \<times> string) list \<Rightarrow> string \<Rightarrow> string" where
  "rename_label rename_map c = (case map_of rename_map c of Some canon \<Rightarrow> canon | None \<Rightarrow> c)"

definition rename :: "frame \<Rightarrow> (string \<times> string) list \<Rightarrow> frame" where
  "rename df rename_map = df\<lparr>columns := map (rename_label rename_map) (columns df)\<rparr>"

definition standardize_columns :: "frame \<Rightarrow> frame" where
  "standardize_columns df =
     (let nta = norm_to_actual (columns df);
          rename_map = build_rename_map nta CANON_MAP []
      in if rename_map \<noteq> [] then rename df rename_map else df)"

section \<open>Selecting columns and rows of a frame\<close>

text \<open>
  The exceptions the stages can raise. \<open>KeyError\<close> carries the literal text of its message
  and the list of labels the message prints after it. \<open>ValueError\<close> is what pandas raises
  when row selection is handed a mask that is not one-dimensional.
\<close>

datatype error = KeyError string "string list" | ValueError

definition positions :: "string list \<Rightarrow> string \<Rightarrow> nat list" where
  "positions cols label = map fst (filter (\<lambda>(i, c). c = label) (enumerate 0 cols))"

text \<open>
  \<^verbatim>\<open>df[label]\<close> as the operand of a row mask. A label that one column carries selects
  that column as a series. A label that several columns carry selects a frame, the mask
  built from it is two-dimensional, and \<^verbatim>\<open>df.loc[mask]\<close> raises.
\<close>

definition series :: "frame \<Rightarrow> string \<Rightarrow> error + cell list" where
  "series df label =
     (case positions (columns df) label of
        [] \<Rightarrow> Inl (KeyError label [])
      | [i] \<Rightarrow> Inr (map (\<lambda>r. r ! i) (rows df))
      | _ \<Rightarrow> Inl ValueError)"

text \<open>\<^verbatim>\<open>s == v\<close>, \<^verbatim>\<open>s.notna()\<close>, \<^verbatim>\<open>s.isin(vs)\<close>, \<^verbatim>\<open>m1 & m2\<close>, \<^verbatim>\<open>~m\<close>
  on series: a missing value equals no string and is in no set.\<close>

definition eq_str :: "cell list \<Rightarrow> string \<Rightarrow> bool list" where
  "eq_str s v = map (\<lambda>c. c = Some v) s"

definition notna :: "cell list \<Rightarrow> bool list" where
  "notna s = map (\<lambda>c. c \<noteq> None) s"

definition isin :: "cell list \<Rightarrow> string list \<Rightarrow> bool list" where
  "isin s vs = map (\<lambda>c. case c of None \<Rightarrow> False | Some x \<Rightarrow> x \<in> set vs) s"

definition mask_and :: "bool list \<Rightarrow> bool list \<Rightarrow> bool list" where
  "mask_and m1 m2 = map (\<lambda>(a, b). a \<and> b) (zip m1 m2)"

definition mask_not :: "bool list \<Rightarrow> bool list" where
  "mask_not m = map Not m"

text \<open>\<^verbatim>\<open>df.loc[mask]\<close>: the rows whose mask entry is true, in order.\<close>

definition loc :: "frame \<Rightarrow> bool list \<Rightarrow> frame" where
  "loc df keep = df\<lparr>rows := map fst (filter snd (zip (rows df) keep))\<rparr>"

text \<open>\<^verbatim>\<open>df.loc[:, cols]\<close>: for each requested label in turn, every column that carries it.\<close>

definition loc_cols :: "frame \<Rightarrow> string list \<Rightarrow> frame" where
  "loc_cols df cols =
     (let idx = concat (map (positions (columns df)) cols)
      in \<lparr>columns = map (\<lambda>i. columns df ! i) idx,
          rows = map (\<lambda>r. map (\<lambda>i. r ! i) idx) (rows df)\<rparr>)"

text \<open>\<^verbatim>\<open>pd.DataFrame()\<close> and \<^verbatim>\<open>df.empty\<close> (true when either axis has length 0).\<close>

definition DataFrame :: frame where
  "DataFrame = \<lparr>columns = [], rows = []\<rparr>"

definition frame_empty :: "frame \<Rightarrow> bool" where
  "frame_empty df \<longleftrightarrow> columns df = [] \<or> rows df = []"

section \<open>Domestic classifier\<close>

definition filter_domestic :: "frame \<Rightarrow> bool \<Rightarrow> error + frame" where
  "filter_domestic df0 include_territories =
     (let df = standardize_columns df0 in
      if ''ORIGIN_COUNTRY_NAME'' \<in> set (columns df) \<and> ''DEST_COUNTRY_NAME'' \<in> set (columns df)
      then
        (case series df ''ORIGIN_COUNTRY_NAME'' of Inl e \<Rightarrow> Inl e | Inr oc \<Rightarrow>
         case series df ''DEST_COUNTRY_NAME'' of Inl e \<Rightarrow> Inl e | Inr dc \<Rightarrow>
           let mask = mask_and (eq_str oc ''UNITED STATES'') (eq_str dc ''UNITED STATES'')
           in Inr (loc df mask))
      else if ''ORIGIN_STATE_ABR'' \<in> set (columns df) \<and> ''DEST_STATE_ABR'' \<in> set (columns df)
      then
        (case series df ''ORIGIN_STATE_ABR'' of Inl e \<Rightarrow> Inl e | Inr os \<Rightarrow>
         case series df ''DEST_STATE_ABR'' of Inl e \<Rightarrow> Inl e | Inr ds \<Rightarrow>
           let mask = mask_and (notna os) (notna ds) in
           if include_territories then Inr (loc df mask)
           else
             let mask2 = mask_and (mask_not (isin os US_TERRITORY_STATE_ABR))
                                  (mask_not (isin ds US_TERRITORY_STATE_ABR))
             in Inr (loc df (mask_and mask mask2)))
      else Inr df)"

section \<open>Carrier selector\<close>

definition keep_aa :: "frame \<Rightarrow> bool \<Rightarrow> error + frame" where
  "keep_aa df0 use_marketing =
     (let df = standardize_columns df0;
          primary = (if use_marketing then ''MKT_UNIQUE_CARRIER'' else ''OP_UNIQUE_CARRIER'');
          col =
            (if primary \<in> set (columns df) then Some primary
             else
               let candidates =
                     (if primary \<noteq> ''MKT_UNIQUE_CARRIER'' then [''MKT_UNIQUE_CARRIER''] else [])
                     @ (if primary \<noteq> ''OP_UNIQUE_CARRIER'' then [''OP_UNIQUE_CARRIER''] else [])
               in find (\<lambda>c. c \<in> set (columns df)) candidates)
      in case col of
           None \<Rightarrow> Inl (KeyError ''Missing carrier column; have: '' (columns df))
         | Some c \<Rightarrow>
             (case series df c of Inl e \<Rightarrow> Inl e | Inr s \<Rightarrow> Inr (loc df (eq_str s ''AA''))))"

section \<open>Projection\<close>

text \<open>
  \<^verbatim>\<open>astype("string")\<close> on a column read with \<^verbatim>\<open>dtype=str\<close>: a string stays the string
  it is, and NaN becomes the missing value of the string dtype.
\<close>

definition astype_string :: "cell \<Rightarrow> cell" where
  "astype_string v = (case v of None \<Rightarrow> None | Some s \<Rightarrow> Some s)"

text \<open>\<^verbatim>\<open>out[tcol] = out[tcol].astype("string")\<close>\<close>

definition astype_col :: "frame \<Rightarrow> string \<Rightarrow> frame" where
  "astype_col out tcol =
     out\<lparr>rows :=
       map (\<lambda>r. map (\<lambda>i. if columns out ! i = tcol then astype_string (r ! i) else r ! i)
                     [0..<length r])
           (rows out)\<rparr>"

definition select_output_cols :: "frame \<Rightarrow> frame" where
  "select_output_cols df0 =
     (let df = standardize_columns df0;
          cols = filter (\<lambda>c. c \<in> set (columns df)) OUTPUT_COLS
      in if cols = [] then DataFrame
         else
           let out = loc_cols df cols;
               out = foldl (\<lambda>out tcol. if tcol \<in> set (columns out) then astype_col out tcol else out)
                       out
                       [''CRS_DEP_TIME'', ''DEP_TIME'', ''WHEELS_OFF'',
                        ''CRS_ARR_TIME'', ''ARR_TIME'', ''WHEELS_ON''];
               out = (if ''OP_CARRIER_FL_NUM'' \<in> set (columns out)
                      then astype_col out ''OP_CARRIER_FL_NUM'' else out)
           in out)"

section \<open>Appending writer\<close>

text \<open>
  The output file is the list of lines written to it so far. \<^verbatim>\<open>to_csv\<close> in append mode
  adds the header line when asked for one, and then one line for each row.
\<close>

datatype line = is_Header: Header "string list" | Row "cell list"

definition to_csv :: "frame \<Rightarrow> line list \<Rightarrow> bool \<Rightarrow> line list" where
  "to_csv df file header = file @ (if header then [Header (columns df)] else []) @ map Row (rows df)"

definition append_write :: "frame \<Rightarrow> line list \<Rightarrow> bool \<Rightarrow> line list \<times> bool" where
  "append_write df file header_written =
     (if frame_empty df then (file, header_written)
      else (to_csv df file (\<not> header_written), True))"

text \<open>
  The loop of \<^verbatim>\<open>main\<close> under \<^verbatim>\<open>--append_out\<close>, over the outcomes of
  \<^verbatim>\<open>process_month\<close> in the order of the months: a month that raised is reported and
  leaves file and flag as they are, any other month is handed to \<open>append_write\<close>. The
  file is truncated and the flag cleared before the first month.
\<close>

fun append_loop :: "(error + frame) list \<Rightarrow> line list \<times> bool \<Rightarrow> line list \<times> bool" where
  "append_loop [] st = st"
| "append_loop (Inl e # months) st = append_loop months st"
| "append_loop (Inr dfm # months) (file, header_written) =
     append_loop months (append_write dfm file header_written)"

definition main_append :: "(error + frame) list \<Rightarrow> line list \<times> bool" where
  "main_append months = append_loop months ([], False)"

section \<open>The specification's vocabulary\<close>

text \<open>
  The notions the specification uses to describe the stages, written after its words;
  the theorems below compare the functions above with them.
\<close>

text \<open>Which of the two signals of the domestic classifier a column list offers.\<close>

definition country_pair :: "string list \<Rightarrow> bool" where
  "country_pair cols \<longleftrightarrow> ''ORIGIN_COUNTRY_NAME'' \<in> set cols \<and> ''DEST_COUNTRY_NAME'' \<in> set cols"

definition state_pair :: "string list \<Rightarrow> bool" where
  "state_pair cols \<longleftrightarrow> ''ORIGIN_STATE_ABR'' \<in> set cols \<and> ''DEST_STATE_ABR'' \<in> set cols"

text \<open>A row whose two country names are exactly the string UNITED STATES.\<close>

definition us_row :: "frame \<Rightarrow> cell list \<Rightarrow> bool" where
  "us_row df r \<longleftrightarrow>
     record_of df r ''ORIGIN_COUNTRY_NAME'' = Some (Some ''UNITED STATES'') \<and>
     record_of df r ''DEST_COUNTRY_NAME'' = Some (Some ''UNITED STATES'')"

text \<open>
  A row whose two state abbreviations are not null and, unless territories count as
  domestic, are both outside the territory set.
\<close>

definition state_row :: "frame \<Rightarrow> bool \<Rightarrow> cell list \<Rightarrow> bool" where
  "state_row df include_territories r =
     (case (record_of df r ''ORIGIN_STATE_ABR'', record_of df r ''DEST_STATE_ABR'') of
        (Some (Some a), Some (Some b)) \<Rightarrow>
          include_territories \<or>
          (a \<notin> set US_TERRITORY_STATE_ABR \<and> b \<notin> set US_TERRITORY_STATE_ABR)
      | _ \<Rightarrow> False)"

text \<open>The frame restricted to the rows whose value under \<open>field\<close> is the string \<open>v\<close>.\<close>

definition rows_where :: "frame \<Rightarrow> string \<Rightarrow> string \<Rightarrow> frame" where
  "rows_where df field v =
     df\<lparr>rows := filter (\<lambda>r. record_of df r field = Some (Some v)) (rows df)\<rparr>"

text \<open>The carrier field the selector resolves: the preferred one if present, else the other.\<close>

definition carrier_field :: "string list \<Rightarrow> bool \<Rightarrow> string" where
  "carrier_field cols prefer_marketing =
     (let preferred = (if prefer_marketing then ''MKT_UNIQUE_CARRIER'' else ''OP_UNIQUE_CARRIER'');
          other = (if prefer_marketing then ''OP_UNIQUE_CARRIER'' else ''MKT_UNIQUE_CARRIER'')
      in if preferred \<in> set cols then preferred else other)"

text \<open>
  The normalizer as the specification words it: strip every character that is not an
  ASCII letter or digit, then uppercase.
\<close>

definition ascii_alnum :: "char \<Rightarrow> bool" where
  "ascii_alnum c \<longleftrightarrow> c \<in> set ascii_lowercase \<or> c \<in> set ascii_uppercase \<or> c \<in> set digits"

definition strip_then_upper :: "string \<Rightarrow> string" where
  "strip_then_upper s = py_upper (filter ascii_alnum s)"

definition is_ascii :: "char \<Rightarrow> bool" where
  "is_ascii c \<longleftrightarrow> (of_char c :: nat) < 128"

text \<open>
  Resolution of one canonical field as the specification words it: the first alias, in
  declared order, whose normalized form is that of some actual column, together with
  the column it is bound to. Where several columns share the normalized form, the
  binding is to the last of them.
\<close>

definition resolve :: "string list \<Rightarrow> string list \<Rightarrow> (string \<times> string) option" where
  "resolve cols aliases =
     (case find (\<lambda>a. norm a \<in> set (map norm cols)) aliases of
        None \<Rightarrow> None
      | Some a \<Rightarrow> Some (a, last (filter (\<lambda>c. norm c = norm a) cols)))"

text \<open>The months of a run that produced a non-empty frame, in order.\<close>

definition nonempty_frames :: "(error + frame) list \<Rightarrow> frame list" where
  "nonempty_frames months =
     filter (\<lambda>d. \<not> frame_empty d)
       (concat (map (\<lambda>m. case m of Inl e \<Rightarrow> [] | Inr d \<Rightarrow> [d]) months))"

section \<open>Auxiliary notions for the proofs\<close>

text \<open>The contribution of one character to \<open>norm\<close>.\<close>

definition norm_char :: "char \<Rightarrow> string" where
  "norm_char c = filter in_AZ09 (py_upper_char c)"

text \<open>The column one alias list is bound to, given the dict of normalized column names.\<close>

definition target :: "(string \<times> string) list \<Rightarrow> string list \<Rightarrow> string option" where
  "target nta aliases =
     (case find (\<lambda>a. map_of nta (norm a) \<noteq> None) aliases of
        None \<Rightarrow> None
      | Some a \<Rightarrow> map_of nta (norm a))"

text \<open>
  What the proofs need of the alias table: the canonical names are distinct, each alias
  list starts with its canonical name, and no normalized alias belongs to two
  canonical names.
\<close>

definition normed :: "(string \<times> string list) list \<Rightarrow> (string \<times> string list) list" where
  "normed items = map (\<lambda>(X, As). (X, map norm As)) items"

definition disjoint_norms :: "(string \<times> string list) list \<Rightarrow> bool" where
  "disjoint_norms N \<longleftrightarrow>
     list_all (\<lambda>(X, Ns). list_all (\<lambda>(Y, Ms). X = Y \<or> list_all (\<lambda>a. a \<notin> set Ms) Ns) N) N"

definition table_ok :: "(string \<times> string list) list \<Rightarrow> bool" where
  "table_ok items \<longleftrightarrow>
     distinct (map fst items) \<and>
     list_all (\<lambda>(X, As). As \<noteq> [] \<and> hd As = X) items \<and>
     disjoint_norms (normed items)"

section \<open>Evaluating the normalizer\<close>

lemma norm_Nil: "norm [] = []"
  by (simp add: norm_def py_upper_def)

lemma norm_Cons: "norm (c # s) = norm_char c @ norm s"
  by (simp add: norm_def py_upper_def norm_char_def)

lemma norm_char_simps:
  "norm_char CHR ''A'' = ''A''"
  "norm_char CHR ''B'' = ''B''"
  "norm_char CHR ''C'' = ''C''"
  "norm_char CHR ''D'' = ''D''"
  "norm_char CHR ''E'' = ''E''"
  "norm_char CHR ''F'' = ''F''"
  "norm_char CHR ''G'' = ''G''"
  "norm_char CHR ''H'' = ''H''"
  "norm_char CHR ''I'' = ''I''"
  "norm_char CHR ''J'' = ''J''"
  "norm_char CHR ''K'' = ''K''"
  "norm_char CHR ''L'' = ''L''"
  "norm_char CHR ''M'' = ''M''"
  "norm_char CHR ''N'' = ''N''"
  "norm_char CHR ''O'' = ''O''"
  "norm_char CHR ''P'' = ''P''"
  "norm_char CHR ''Q'' = ''Q''"
  "norm_char CHR ''R'' = ''R''"
  "norm_char CHR ''S'' = ''S''"
  "norm_char CHR ''T'' = ''T''"
  "norm_char CHR ''U'' = ''U''"
  "norm_char CHR ''V'' = ''V''"
  "norm_char CHR ''W'' = ''W''"
  "norm_char CHR ''X'' = ''X''"
  "norm_char CHR ''Y'' = ''Y''"
  "norm_char CHR ''Z'' = ''Z''"
  "norm_char CHR ''a'' = ''A''"
  "norm_char CHR ''b'' = ''B''"
  "norm_char CHR ''c'' = ''C''"
  "norm_char CHR ''d'' = ''D''"
  "norm_char CHR ''e'' = ''E''"
  "norm_char CHR ''f'' = ''F''"
  "norm_char CHR ''g'' = ''G''"
  "norm_char CHR ''h'' = ''H''"
  "norm_char CHR ''i'' = ''I''"
  "norm_char CHR ''j'' = ''J''"
  "norm_char CHR ''k'' = ''K''"
  "norm_char CHR ''l'' = ''L''"
  "norm_char CHR ''m'' = ''M''"
  "norm_char CHR ''n'' = ''N''"
  "norm_char CHR ''o'' = ''O''"
  "norm_char CHR ''p'' = ''P''"
  "norm_char CHR ''q'' = ''Q''"
  "norm_char CHR ''r'' = ''R''"
  "norm_char CHR ''s'' = ''S''"
  "norm_char CHR ''t'' = ''T''"
  "norm_char CHR ''u'' = ''U''"
  "norm_char CHR ''v'' = ''V''"
  "norm_char CHR ''w'' = ''W''"
  "norm_char CHR ''x'' = ''X''"
  "norm_char CHR ''y'' = ''Y''"
  "norm_char CHR ''z'' = ''Z''"
  "norm_char CHR ''0'' = ''0''"
  "norm_char CHR ''1'' = ''1''"
  "norm_char CHR ''2'' = ''2''"
  "norm_char CHR ''3'' = ''3''"
  "norm_char CHR ''4'' = ''4''"
  "norm_char CHR ''5'' = ''5''"
  "norm_char CHR ''6'' = ''6''"
  "norm_char CHR ''7'' = ''7''"
  "norm_char CHR ''8'' = ''8''"
  "norm_char CHR ''9'' = ''9''"
  "norm_char CHR ''_'' = ''''"
  "norm_char CHR '' '' = ''''"
  by (simp_all add: norm_char_def py_upper_char_def in_AZ09_def ascii_lowercase_def
      ascii_uppercase_def digits_def latin1_lowercase_def latin1_uppercase_def)

lemmas norm_eval = norm_Nil norm_Cons norm_char_simps

lemma normed_CANON_MAP:
  "normed CANON_MAP =
    [(''FL_DATE'', [''FLDATE'', ''FLIGHTDATE'', ''FLIGHTDATE'']),
  (''OP_UNIQUE_CARRIER'',
   [''OPUNIQUECARRIER'', ''OPERATINGAIRLINE'', ''OPERATINGCARRIER'',
    ''OPCARRIER'', ''OPERATINGAIRLINEIATACODE'',
    ''OPERATINGAIRLINEIATACODE'']),
  (''MKT_UNIQUE_CARRIER'',
   [''MKTUNIQUECARRIER'', ''MARKETINGAIRLINENETWORK'', ''MARKETINGCARRIER'',
    ''MKTCARRIER'', ''MKTUNIQUECARRIER'', ''REPORTINGAIRLINE'',
    ''IATACODEREPORTINGAIRLINE'']),
  (''OP_CARRIER_FL_NUM'',
   [''OPCARRIERFLNUM'', ''OPCARRIERFLNUM'', ''FLNUM'', ''FLIGHTNUM'',
    ''FLIGHTNUMBER'', ''FLIGHTNUMBERREPORTINGAIRLINE'',
    ''FLIGHTNUMBEROPERATINGAIRLINE'', ''FLIGHTNUMBERREPORTINGAIRLINE'',
    ''FLIGHTNUMBEROPERATINGAIRLINE'']),
  (''ORIGIN'', [''ORIGIN'', ''ORIGINAIRPORT'', ''ORIGINAIRPORT'']),
  (''DEST'', [''DEST'', ''DESTAIRPORT'', ''DESTAIRPORT'']),
  (''ORIGIN_STATE_ABR'',
   [''ORIGINSTATEABR'', ''ORIGINSTATEABBREVIATION'', ''ORIGINSTATE'',
    ''ORIGINSTATE'']),
  (''DEST_STATE_ABR'',
   [''DESTSTATEABR'', ''DESTSTATEABBREVIATION'', ''DESTSTATE'',
    ''DESTSTATE'']),
  (''ORIGIN_COUNTRY_NAME'',
   [''ORIGINCOUNTRYNAME'', ''ORIGINCOUNTRYNAME'', ''ORIGINCOUNTRY'']),
  (''DEST_COUNTRY_NAME'',
   [''DESTCOUNTRYNAME'', ''DESTCOUNTRYNAME'', ''DESTCOUNTRY'']),
  (''CRS_DEP_TIME'', [''CRSDEPTIME'', ''CRSDEPTIME'']),
  (''DEP_TIME'', [''DEPTIME'', ''DEPTIME'']),
  (''WHEELS_OFF'', [''WHEELSOFF'', ''WHEELSOFF'']),
  (''CRS_ARR_TIME'', [''CRSARRTIME'', ''CRSARRTIME'']),
  (''ARR_TIME'', [''ARRTIME'', ''ARRTIME'']),
  (''WHEELS_ON'', [''WHEELSON'', ''WHEELSON'']),
  (''CANCELLED'', [''CANCELLED'', ''CANCELLED'']),
  (''DIVERTED'', [''DIVERTED'', ''DIVERTED''])]"
  by (simp add: normed_def CANON_MAP_def norm_eval)

lemma CANON_MAP_ok: "table_ok CANON_MAP"
  unfolding table_ok_def normed_CANON_MAP
  by (simp add: CANON_MAP_def disjoint_norms_def)

section \<open>The dict of normalized column names\<close>

lemma map_of_foldl_update:
  "map_of (foldl (\<lambda>m c. AList.update (f c) c m) m cols) =
     map_of m ++ map_of (rev (map (\<lambda>c. (f c, c)) cols))"
proof (induction cols arbitrary: m)
  case Nil
  show ?case by simp
next
  case (Cons c cols)
  show ?case
    by (rule ext) (simp add: Cons update_conv' map_add_def split: option.splits)
qed

lemma nta_conv: "map_of (norm_to_actual cols) = map_of (rev (map (\<lambda>c. (norm c, c)) cols))"
  by (simp add: norm_to_actual_def map_of_foldl_update)

lemma nta_SomeD: "map_of (norm_to_actual cols) n = Some c \<Longrightarrow> c \<in> set cols \<and> norm c = n"
  by (auto simp: nta_conv dest!: map_of_SomeD)

lemma nta_None_iff: "map_of (norm_to_actual cols) n = None \<longleftrightarrow> n \<notin> norm ` set cols"
  by (simp add: nta_conv map_of_eq_None_iff image_image)

lemma nta_append:
  "map_of (norm_to_actual (xs @ y # ys)) n =
     (case map_of (norm_to_actual ys) n of
        Some c \<Rightarrow> Some c
      | None \<Rightarrow> if norm y = n then Some y else map_of (norm_to_actual xs) n)"
  by (simp add: nta_conv map_add_def split: option.splits)

lemma nta_split:
  assumes "map_of (norm_to_actual cs) n = Some c"
  shows "\<exists>us vs. cs = us @ c # vs \<and> n \<notin> norm ` set vs"
proof -
  from assms have "\<exists>x\<in>set cs. norm x = n" using nta_SomeD by blast
  then obtain ys x zs where s: "cs = ys @ x # zs" "norm x = n" "\<forall>z\<in>set zs. norm z \<noteq> n"
    using split_list_last_prop [of cs "\<lambda>x. norm x = n"] by blast
  then have "map_of (norm_to_actual zs) n = None" by (auto simp: nta_None_iff)
  with s assms have "c = x" by (simp add: nta_append)
  with s have "cs = ys @ c # zs \<and> n \<notin> norm ` set zs" by auto
  then show ?thesis by blast
qed

lemma nta_last:
  "n \<in> norm ` set cols \<Longrightarrow>
     map_of (norm_to_actual cols) n = Some (last (filter (\<lambda>c. norm c = n) cols))"
proof (induction cols rule: rev_induct)
  case Nil
  then show ?case by simp
next
  case (snoc x xs)
  have a: "map_of (norm_to_actual (xs @ [x])) n =
          (if norm x = n then Some x else map_of (norm_to_actual xs) n)"
    using nta_append [of xs x "[]" n] by (simp add: norm_to_actual_def)
  show ?case
  proof (cases "norm x = n")
    case True
    then show ?thesis by (simp add: a)
  next
    case False
    with snoc.prems have "n \<in> norm ` set xs" by auto
    from snoc.IH [OF this] False show ?thesis by (simp add: a)
  qed
qed

section \<open>The rename map\<close>

lemma bind_aliases_target:
  "bind_aliases nta X As rm = (case target nta As of None \<Rightarrow> rm | Some c \<Rightarrow> AList.update c X rm)"
  by (induction As) (auto simp: target_def split: option.splits)

lemma target_SomeD:
  assumes "target (norm_to_actual cs) As = Some c"
  shows "c \<in> set cs \<and> (\<exists>a\<in>set As. norm a = norm c)"
proof -
  from assms obtain a where a: "find (\<lambda>a. map_of (norm_to_actual cs) (norm a) \<noteq> None) As = Some a"
    and c: "map_of (norm_to_actual cs) (norm a) = Some c"
    by (auto simp: target_def split: option.splits)
  from a have "a \<in> set As" by (auto simp: find_Some_iff)
  with nta_SomeD [OF c] show ?thesis by auto
qed

lemma target_None_iff:
  "target (norm_to_actual cs) As = None \<longleftrightarrow> (\<forall>a\<in>set As. norm a \<notin> norm ` set cs)"
proof (cases "find (\<lambda>a. map_of (norm_to_actual cs) (norm a) \<noteq> None) As")
  case None
  then have "target (norm_to_actual cs) As = None" by (simp add: target_def)
  moreover from None have "\<forall>a\<in>set As. map_of (norm_to_actual cs) (norm a) = None"
    by (simp add: find_None_iff)
  ultimately show ?thesis by (simp add: nta_None_iff [symmetric])
next
  case (Some a)
  then have a: "a \<in> set As" "map_of (norm_to_actual cs) (norm a) \<noteq> None"
    by (auto simp: find_Some_iff)
  from Some a(2) have "target (norm_to_actual cs) As \<noteq> None" by (simp add: target_def)
  moreover from a(2) have "norm a \<in> norm ` set cs" by (simp add: nta_None_iff)
  with a(1) have "\<not> (\<forall>a\<in>set As. norm a \<notin> norm ` set cs)" by blast
  ultimately show ?thesis by blast
qed

lemma target_hd:
  "norm X \<in> norm ` set cs \<Longrightarrow> target (norm_to_actual cs) (X # As) = map_of (norm_to_actual cs) (norm X)"
  by (auto simp: target_def nta_None_iff)

lemma target_resolve:
  "target (norm_to_actual cols) As = map_option snd (resolve cols As)"
proof -
  have eq: "(\<lambda>a. map_of (norm_to_actual cols) (norm a) \<noteq> None) = (\<lambda>a. norm a \<in> set (map norm cols))"
    by (rule ext) (simp add: nta_None_iff)
  have t: "target (norm_to_actual cols) As =
     (case find (\<lambda>a. norm a \<in> set (map norm cols)) As of
        None \<Rightarrow> None
      | Some a \<Rightarrow> map_of (norm_to_actual cols) (norm a))"
    unfolding target_def eq by (rule refl)
  show ?thesis
  proof (cases "find (\<lambda>a. norm a \<in> set (map norm cols)) As")
    case None
    then show ?thesis unfolding t resolve_def by simp
  next
    case (Some a)
    then have "norm a \<in> norm ` set cols" by (auto simp: find_Some_iff)
    from nta_last [OF this] Some show ?thesis unfolding t resolve_def by simp
  qed
qed

lemma bind_aliases_resolve:
  "bind_aliases (norm_to_actual cols) X As rm =
     (case resolve cols As of None \<Rightarrow> rm | Some (a, c) \<Rightarrow> AList.update c X rm)"
  by (simp add: bind_aliases_target target_resolve split: option.splits)

lemma build_origin:
  "map_of (build_rename_map nta items rm) c = Some X \<Longrightarrow>
     map_of rm c = Some X \<or> (\<exists>As. (X, As) \<in> set items \<and> target nta As = Some c)"
proof (induction items arbitrary: rm)
  case Nil
  then show ?case by simp
next
  case (Cons it items)
  obtain Y Bs where it: "it = (Y, Bs)" by (cases it)
  from Cons.prems have "map_of (build_rename_map nta items (bind_aliases nta Y Bs rm)) c = Some X"
    by (simp add: it)
  from Cons.IH [OF this] show ?case
  proof
    assume b: "map_of (bind_aliases nta Y Bs rm) c = Some X"
    show ?thesis
    proof (cases "target nta Bs")
      case None
      with b show ?thesis by (simp add: bind_aliases_target)
    next
      case (Some c0)
      with b have "(c = c0 \<and> Y = X) \<or> map_of rm c = Some X"
        by (simp add: bind_aliases_target update_conv' split: if_splits)
      with Some show ?thesis by (auto simp: it)
    qed
  next
    assume "\<exists>As. (X, As) \<in> set items \<and> target nta As = Some c"
    then show ?thesis by auto
  qed
qed

lemma build_present:
  assumes "map_of rm c = Some X \<or> (\<exists>As. (X, As) \<in> set items \<and> target nta As = Some c)"
    and "\<forall>Y Bs. (Y, Bs) \<in> set items \<longrightarrow> target nta Bs = Some c \<longrightarrow> Y = X"
  shows "map_of (build_rename_map nta items rm) c = Some X"
  using assms
proof (induction items arbitrary: rm)
  case Nil
  then show ?case by simp
next
  case (Cons it items)
  obtain Y Bs where it: "it = (Y, Bs)" by (cases it)
  have "map_of (bind_aliases nta Y Bs rm) c = Some X \<or>
          (\<exists>As. (X, As) \<in> set items \<and> target nta As = Some c)"
  proof (cases "target nta Bs = Some c")
    case True
    with Cons.prems(2) have "Y = X" by (simp add: it)
    with True show ?thesis by (simp add: bind_aliases_target update_conv')
  next
    case False
    from Cons.prems(1) show ?thesis
    proof
      assume "map_of rm c = Some X"
      with False show ?thesis
        by (simp add: bind_aliases_target update_conv' split: option.splits)
    next
      assume "\<exists>As. (X, As) \<in> set (it # items) \<and> target nta As = Some c"
      with False show ?thesis by (auto simp: it)
    qed
  qed
  moreover have "\<forall>Y Bs. (Y, Bs) \<in> set items \<longrightarrow> target nta Bs = Some c \<longrightarrow> Y = X"
    using Cons.prems(2) by auto
  ultimately show ?case
    using Cons.IH [of "bind_aliases nta Y Bs rm"] by (simp add: it)
qed

section \<open>Properties of the alias table\<close>

lemma table_ok_hd: "table_ok items \<Longrightarrow> (X, As) \<in> set items \<Longrightarrow> \<exists>As'. As = X # As'"
  by (cases As) (auto simp: table_ok_def list_all_iff)

lemma table_ok_key: "table_ok items \<Longrightarrow> (X, As) \<in> set items \<Longrightarrow> (X, Bs) \<in> set items \<Longrightarrow> As = Bs"
  by (auto simp: table_ok_def dest: eq_key_imp_eq_value)

lemma table_ok_disj:
  assumes "table_ok items" "(X, As) \<in> set items" "(Y, Bs) \<in> set items"
    "a \<in> set As" "b \<in> set Bs" "norm a = norm b"
  shows "X = Y"
proof (rule ccontr)
  assume ne: "X \<noteq> Y"
  from assms(2) have x: "(X, map norm As) \<in> set (normed items)"
    by (force simp: normed_def)
  from assms(3) have y: "(Y, map norm Bs) \<in> set (normed items)"
    by (force simp: normed_def)
  from assms(1) have "\<forall>p\<in>set (normed items). \<forall>q\<in>set (normed items).
      fst p = fst q \<or> (\<forall>a\<in>set (snd p). a \<notin> set (snd q))"
    by (simp add: table_ok_def disjoint_norms_def list_all_iff split_beta)
  from this [rule_format, OF x y] ne have "\<forall>n\<in>set (map norm As). n \<notin> set (map norm Bs)"
    by simp
  with assms(4,5,6) show False by auto
qed

section \<open>Reconciling twice\<close>

lemma rename_cases:
  assumes "rm = build_rename_map (norm_to_actual cols) items []"
  shows "(map_of rm c = None \<and> rename_label rm c = c) \<or>
         (\<exists>X As. map_of rm c = Some X \<and> rename_label rm c = X \<and> (X, As) \<in> set items \<and>
                 target (norm_to_actual cols) As = Some c)"
proof (cases "map_of rm c")
  case None
  then show ?thesis by (simp add: rename_label_def)
next
  case (Some X)
  with assms have "map_of (build_rename_map (norm_to_actual cols) items []) c = Some X" by simp
  from build_origin [OF this] obtain As where
    "(X, As) \<in> set items" "target (norm_to_actual cols) As = Some c" by auto
  with Some show ?thesis by (auto simp: rename_label_def)
qed

lemma rename_bound:
  assumes ok: "table_ok items"
    and rm: "rm = build_rename_map (norm_to_actual cols) items []"
    and X: "(X, As) \<in> set items"
    and t: "target (norm_to_actual cols) As = Some c"
  shows "map_of rm c = Some X"
proof -
  have "\<forall>Y Bs. (Y, Bs) \<in> set items \<longrightarrow> target (norm_to_actual cols) Bs = Some c \<longrightarrow> Y = X"
  proof (intro allI impI)
    fix Y Bs
    assume Y: "(Y, Bs) \<in> set items" and tY: "target (norm_to_actual cols) Bs = Some c"
    from target_SomeD [OF t] obtain a where a: "a \<in> set As" "norm a = norm c" by auto
    from target_SomeD [OF tY] obtain b where b: "b \<in> set Bs" "norm b = norm c" by auto
    from a b have "norm b = norm a" by simp
    from table_ok_disj [OF ok Y X b(1) a(1) this] show "Y = X" .
  qed
  moreover have "map_of [] c = Some X \<or> (\<exists>As. (X, As) \<in> set items \<and> target (norm_to_actual cols) As = Some c)"
    using X t by auto
  ultimately show ?thesis unfolding rm by (rule build_present [rotated])
qed

lemma canon_norm_unique:
  assumes ok: "table_ok items" and X: "(X, As) \<in> set items" and Y: "(Y, Bs) \<in> set items"
    and a: "a \<in> set As" and n: "norm a = norm Y"
  shows "X = Y \<and> As = Bs"
proof -
  from table_ok_hd [OF ok Y] have "Y \<in> set Bs" by auto
  from table_ok_disj [OF ok X Y a this n] have "X = Y" .
  with table_ok_key [OF ok] X Y show ?thesis by blast
qed

lemma second_pass_target:
  assumes ok: "table_ok items"
    and rm: "rm = build_rename_map (norm_to_actual cols) items []"
    and X: "(X, As) \<in> set items"
    and t': "target (norm_to_actual (map (rename_label rm) cols)) As = Some c'"
  shows "c' = X"
proof -
  let ?nta = "norm_to_actual cols"
  let ?r = "rename_label rm"
  let ?cols' = "map ?r cols"
  from table_ok_hd [OF ok X] obtain As' where As: "As = X # As'" by auto
  from target_SomeD [OF t'] obtain a where c'in: "c' \<in> set ?cols'" and a: "a \<in> set As" "norm a = norm c'"
    by auto
  from c'in obtain y where y: "y \<in> set cols" "c' = ?r y" by auto
  \<comment> \<open>the field was bound in the first pass\<close>
  have "target ?nta As \<noteq> None"
    using rename_cases [OF rm, of y]
  proof
    assume "map_of rm y = None \<and> ?r y = y"
    with y a have "norm a \<in> norm ` set cols" by auto
    with a(1) show ?thesis by (auto simp: target_None_iff)
  next
    assume "\<exists>Y Bs. map_of rm y = Some Y \<and> ?r y = Y \<and> (Y, Bs) \<in> set items \<and> target ?nta Bs = Some y"
    then obtain Y Bs where Y: "?r y = Y" "(Y, Bs) \<in> set items" "target ?nta Bs = Some y" by auto
    from a y Y(1) have "norm a = norm Y" by simp
    from canon_norm_unique [OF ok X Y(2) a(1) this] Y(3) show ?thesis by simp
  qed
  then obtain c0 where c0: "target ?nta As = Some c0" by auto
  from rename_bound [OF ok rm X c0] have rc0: "map_of rm c0 = Some X" .
  then have r0: "?r c0 = X" by (simp add: rename_label_def)
  from target_SomeD [OF c0] have "c0 \<in> set cols" by simp
  with r0 have Xin: "X \<in> set ?cols'" by force
  then have "norm X \<in> norm ` set ?cols'" by blast
  from target_hd [OF this] t' have look: "map_of (norm_to_actual ?cols') (norm X) = Some c'"
    by (simp add: As)
  show ?thesis
  proof (rule ccontr)
    assume ne: "c' \<noteq> X"
    from nta_split [OF look] obtain us vs where
      sp: "?cols' = us @ c' # vs" "norm X \<notin> norm ` set vs" by auto
    from sp(1) obtain xs z ys where
      z: "cols = xs @ z # ys" "c' = ?r z" "vs = map ?r ys"
      by (auto simp: map_eq_append_conv map_eq_Cons_conv)
    from nta_SomeD [OF look] have nc': "norm c' = norm X" by simp
    have zun: "map_of rm z = None \<and> ?r z = z"
      using rename_cases [OF rm, of z]
    proof
      assume "map_of rm z = None \<and> ?r z = z"
      then show ?thesis .
    next
      assume "\<exists>Y Bs. map_of rm z = Some Y \<and> ?r z = Y \<and> (Y, Bs) \<in> set items \<and> target ?nta Bs = Some z"
      then obtain Y Bs where Y: "?r z = Y" "(Y, Bs) \<in> set items" by auto
      have "X \<in> set As" by (simp add: As)
      moreover from nc' z(2) Y(1) have "norm X = norm Y" by simp
      ultimately have "X = Y" using canon_norm_unique [OF ok X Y(2)] by blast
      with Y(1) z(2) ne show ?thesis by simp
    qed
    with z(2) nc' have nz: "norm z = norm X" by simp
    then have "norm X \<in> norm ` set cols" using z(1) by force
    from target_hd [OF this] c0 have l0: "map_of ?nta (norm X) = Some c0" by (simp add: As)
    from zun rc0 have "c0 \<noteq> z" by auto
    with l0 nz have "map_of (norm_to_actual ys) (norm X) = Some c0"
      by (simp add: z(1) nta_append split: option.splits)
    then have "c0 \<in> set ys" using nta_SomeD by blast
    with r0 z(3) have "X \<in> set vs" by force
    with sp(2) show False by blast
  qed
qed

lemma second_pass_rename:
  assumes ok: "table_ok items"
    and rm: "rm = build_rename_map (norm_to_actual cols) items []"
    and rm': "rm' = build_rename_map (norm_to_actual (map (rename_label rm) cols)) items []"
  shows "rename_label rm' c = c"
  using rename_cases [OF rm', of c]
proof
  assume "map_of rm' c = None \<and> rename_label rm' c = c"
  then show ?thesis by simp
next
  assume "\<exists>X As. map_of rm' c = Some X \<and> rename_label rm' c = X \<and> (X, As) \<in> set items \<and>
            target (norm_to_actual (map (rename_label rm) cols)) As = Some c"
  then obtain X As where X: "rename_label rm' c = X" "(X, As) \<in> set items"
    "target (norm_to_actual (map (rename_label rm) cols)) As = Some c" by auto
  from second_pass_target [OF ok rm X(2,3)] X(1) show ?thesis by simp
qed

lemma canonical_rename:
  assumes ok: "table_ok items"
    and rm: "rm = build_rename_map (norm_to_actual cols) items []"
    and c: "c \<in> fst ` set items"
  shows "rename_label rm c = c"
  using rename_cases [OF rm, of c]
proof
  assume "map_of rm c = None \<and> rename_label rm c = c"
  then show ?thesis by simp
next
  assume "\<exists>X As. map_of rm c = Some X \<and> rename_label rm c = X \<and> (X, As) \<in> set items \<and>
                 target (norm_to_actual cols) As = Some c"
  then obtain X As where X: "rename_label rm c = X" "(X, As) \<in> set items"
    "target (norm_to_actual cols) As = Some c" by auto
  from c obtain Bs where Y: "(c, Bs) \<in> set items" by auto
  from target_SomeD [OF X(3)] obtain a where "a \<in> set As" "norm a = norm c" by auto
  from canon_norm_unique [OF ok X(2) Y this] X(1) show ?thesis by simp
qed

lemma standardize_columns_conv:
  "standardize_columns df =
     df\<lparr>columns := map (rename_label (build_rename_map (norm_to_actual (columns df)) CANON_MAP []))
                       (columns df)\<rparr>"
proof -
  have "rename_label [] = (\<lambda>c. c)"
    by (rule ext) (simp add: rename_label_def)
  then have "map (rename_label []) (columns df) = columns df"
    by simp
  then show ?thesis
    by (auto simp: standardize_columns_def rename_def Let_def)
qed

lemma standardize_rows: "rows (standardize_columns df) = rows df"
  by (simp add: standardize_columns_conv)

lemma standardize_columns_rows_upd:
  "standardize_columns (df\<lparr>rows := rs\<rparr>) = (standardize_columns df)\<lparr>rows := rs\<rparr>"
  by (simp add: standardize_columns_conv)

section \<open>The normalizer on ASCII names\<close>

lemma py_upper_char_ascii:
  assumes "is_ascii c"
  shows "filter in_AZ09 (py_upper_char c) = (if ascii_alnum c then py_upper_char c else [])"
proof -
  have len: "length ascii_lowercase = length ascii_uppercase"
    by (simp add: ascii_lowercase_def ascii_uppercase_def)
  show ?thesis
  proof (cases "map_of (zip ascii_lowercase ascii_uppercase) c")
    case (Some u)
    then have "(c, u) \<in> set (zip ascii_lowercase ascii_uppercase)" by (rule map_of_SomeD)
    then have "c \<in> set ascii_lowercase" "u \<in> set ascii_uppercase"
      by (auto dest: set_zip_leftD set_zip_rightD)
    with Some show ?thesis by (simp add: py_upper_char_def in_AZ09_def ascii_alnum_def)
  next
    case None
    then have nl: "c \<notin> set ascii_lowercase"
      using len by (simp add: map_of_zip_is_None)
    have "\<forall>x\<in>set (CHR 0xDF # latin1_lowercase). \<not> is_ascii x"
      by (simp add: latin1_lowercase_def is_ascii_def)
    with assms have nd: "c \<noteq> CHR 0xDF" "c \<notin> set latin1_lowercase" by auto
    have "length latin1_lowercase = length latin1_uppercase"
      by (simp add: latin1_lowercase_def latin1_uppercase_def)
    with nd(2) have "map_of (zip latin1_lowercase latin1_uppercase) c = None"
      by (simp add: map_of_zip_is_None)
    with None nd(1) nl show ?thesis
      by (simp add: py_upper_char_def in_AZ09_def ascii_alnum_def)
  qed
qed

lemma norm_ascii: "\<forall>c\<in>set s. is_ascii c \<Longrightarrow> norm s = strip_then_upper s"
proof (induction s)
  case Nil
  show ?case by (simp add: norm_def strip_then_upper_def py_upper_def)
next
  case (Cons c s)
  then have "norm s = strip_then_upper s" "is_ascii c" by auto
  with py_upper_char_ascii [of c] show ?case
    by (simp add: norm_def strip_then_upper_def py_upper_def)
qed

section \<open>Columns, records and masks\<close>

lemma positions_enum:
  "distinct cols \<Longrightarrow> l \<in> set cols \<Longrightarrow>
     \<exists>i<length cols. cols ! i = l \<and>
        map fst (filter (\<lambda>(i, c). c = l) (enumerate n cols)) = [n + i]"
proof (induction cols arbitrary: n)
  case Nil
  then show ?case by simp
next
  case (Cons c cols)
  show ?case
  proof (cases "c = l")
    case True
    with Cons.prems have "l \<notin> set cols" by simp
    then have "filter (\<lambda>(i, c). c = l) (enumerate (Suc n) cols) = []"
      by (auto simp: filter_empty_conv in_set_enumerate_eq)
    with True show ?thesis by (intro exI [of _ 0]) simp
  next
    case False
    with Cons.prems have "distinct cols" "l \<in> set cols" by auto
    from Cons.IH [OF this, of "Suc n"] obtain i where
      "i < length cols" "cols ! i = l"
      "map fst (filter (\<lambda>(i, c). c = l) (enumerate (Suc n) cols)) = [Suc n + i]" by auto
    with False show ?thesis by (intro exI [of _ "Suc i"]) simp
  qed
qed

lemma positions_unique:
  "distinct cols \<Longrightarrow> l \<in> set cols \<Longrightarrow> \<exists>i<length cols. cols ! i = l \<and> positions cols l = [i]"
  using positions_enum [of cols l 0] by (simp add: positions_def)

lemma record_of_nth:
  assumes "wf_frame df" "r \<in> set (rows df)" "i < length (columns df)"
  shows "record_of df r (columns df ! i) = Some (r ! i)"
proof -
  from assms have "length (columns df) = length r" "distinct (columns df)" "i < length r"
    by (auto simp: wf_frame_def list_all_iff)
  then show ?thesis unfolding record_of_def by (rule map_of_zip_nth)
qed

lemma record_of_Some:
  assumes "wf_frame df" "l \<in> set (columns df)" "r \<in> set (rows df)"
  shows "\<exists>v. record_of df r l = Some v"
proof -
  from assms(2) obtain i where "i < length (columns df)" "columns df ! i = l"
    by (auto simp: in_set_conv_nth)
  with record_of_nth [OF assms(1,3), of i] show ?thesis by auto
qed

lemma series_wf:
  assumes "wf_frame df" "l \<in> set (columns df)"
  shows "series df l = Inr (map (\<lambda>r. the (record_of df r l)) (rows df))"
proof -
  from assms obtain i where i: "i < length (columns df)" "columns df ! i = l"
    "positions (columns df) l = [i]"
    using positions_unique [of "columns df" l] by (auto simp: wf_frame_def)
  have "map (\<lambda>r. r ! i) (rows df) = map (\<lambda>r. the (record_of df r l)) (rows df)"
  proof (rule map_cong [OF refl])
    fix r assume "r \<in> set (rows df)"
    from record_of_nth [OF assms(1) this i(1)] i(2) show "r ! i = the (record_of df r l)" by simp
  qed
  with i(3) show ?thesis by (simp add: series_def)
qed

lemma filter_zip_map: "map fst (filter snd (zip rs (map f rs))) = filter f rs"
  by (induction rs) auto

lemma loc_map: "loc df (map f (rows df)) = df\<lparr>rows := filter f (rows df)\<rparr>"
  by (simp add: loc_def filter_zip_map)

lemma mask_and_map: "mask_and (map f rs) (map g rs) = map (\<lambda>r. f r \<and> g r) rs"
  by (simp add: mask_and_def zip_map_map) (induction rs, auto)

lemma mask_not_map: "mask_not (map f rs) = map (\<lambda>r. \<not> f r) rs"
  by (simp add: mask_not_def)

lemma eq_str_map: "eq_str (map f rs) v = map (\<lambda>r. f r = Some v) rs"
  by (simp add: eq_str_def)

lemma notna_map: "notna (map f rs) = map (\<lambda>r. f r \<noteq> None) rs"
  by (simp add: notna_def)

lemma isin_map: "isin (map f rs) vs = map (\<lambda>r. case f r of None \<Rightarrow> False | Some x \<Rightarrow> x \<in> set vs) rs"
  by (simp add: isin_def)

lemmas mask_simps = loc_map mask_and_map mask_not_map eq_str_map notna_map isin_map

lemma filter_rows_cong:
  "(\<And>r. r \<in> set (rows df) \<Longrightarrow> P r = Q r) \<Longrightarrow> df\<lparr>rows := filter P (rows df)\<rparr> = df\<lparr>rows := filter Q (rows df)\<rparr>"
  by (simp cong: filter_cong)

section \<open>The stages on frames with distinct labels\<close>

lemma fd_country:
  assumes wf: "wf_frame (standardize_columns df)"
    and c: "country_pair (columns (standardize_columns df))"
  shows "filter_domestic df it =
     Inr ((standardize_columns df)\<lparr>rows := filter (us_row (standardize_columns df)) (rows df)\<rparr>)"
proof -
  let ?s = "standardize_columns df"
  from c have c1: "''ORIGIN_COUNTRY_NAME'' \<in> set (columns ?s)"
    and c2: "''DEST_COUNTRY_NAME'' \<in> set (columns ?s)"
    by (simp_all add: country_pair_def)
  have "filter_domestic df it =
     Inr (?s\<lparr>rows :=
        filter (\<lambda>r. the (record_of ?s r ''ORIGIN_COUNTRY_NAME'') = Some ''UNITED STATES'' \<and>
                    the (record_of ?s r ''DEST_COUNTRY_NAME'') = Some ''UNITED STATES'')
          (rows ?s)\<rparr>)"
    using c1 c2 by (simp add: filter_domestic_def Let_def series_wf [OF wf] mask_simps)
  also have "\<dots> = Inr (?s\<lparr>rows := filter (us_row ?s) (rows ?s)\<rparr>)"
  proof -
    have "\<And>r. r \<in> set (rows ?s) \<Longrightarrow>
      (the (record_of ?s r ''ORIGIN_COUNTRY_NAME'') = Some ''UNITED STATES'' \<and>
       the (record_of ?s r ''DEST_COUNTRY_NAME'') = Some ''UNITED STATES'') = us_row ?s r"
      using record_of_Some [OF wf c1] record_of_Some [OF wf c2]
      unfolding us_row_def by fastforce
    from filter_rows_cong [of ?s _ "us_row ?s", OF this] show ?thesis by simp
  qed
  finally show ?thesis by (simp add: standardize_rows)
qed

lemma fd_state:
  assumes wf: "wf_frame (standardize_columns df)"
    and nc: "\<not> country_pair (columns (standardize_columns df))"
    and c: "state_pair (columns (standardize_columns df))"
  shows "filter_domestic df it =
     Inr ((standardize_columns df)\<lparr>rows := filter (state_row (standardize_columns df) it) (rows df)\<rparr>)"
proof -
  let ?s = "standardize_columns df"
  let ?o = "\<lambda>r. the (record_of ?s r ''ORIGIN_STATE_ABR'')"
  let ?d = "\<lambda>r. the (record_of ?s r ''DEST_STATE_ABR'')"
  let ?P = "\<lambda>r. (?o r \<noteq> None \<and> ?d r \<noteq> None) \<and>
               (it \<or> (\<not> (case ?o r of None \<Rightarrow> False | Some x \<Rightarrow> x \<in> set US_TERRITORY_STATE_ABR) \<and>
                      \<not> (case ?d r of None \<Rightarrow> False | Some x \<Rightarrow> x \<in> set US_TERRITORY_STATE_ABR)))"
  from c have c1: "''ORIGIN_STATE_ABR'' \<in> set (columns ?s)"
    and c2: "''DEST_STATE_ABR'' \<in> set (columns ?s)"
    by (simp_all add: state_pair_def)
  from nc have nc': "(''ORIGIN_COUNTRY_NAME'' \<in> set (columns ?s) \<and>
                      ''DEST_COUNTRY_NAME'' \<in> set (columns ?s)) = False"
    by (simp add: country_pair_def)
  have "filter_domestic df it = Inr (?s\<lparr>rows := filter ?P (rows ?s)\<rparr>)"
    using c1 c2
    by (cases it) (simp_all add: filter_domestic_def Let_def nc' series_wf [OF wf] mask_simps)
  also have "\<dots> = Inr (?s\<lparr>rows := filter (state_row ?s it) (rows ?s)\<rparr>)"
  proof -
    have "\<And>r. r \<in> set (rows ?s) \<Longrightarrow> ?P r = state_row ?s it r"
    proof -
      fix r assume r: "r \<in> set (rows ?s)"
      from record_of_Some [OF wf c1 r] obtain v where
        v: "record_of ?s r ''ORIGIN_STATE_ABR'' = Some v" by auto
      from record_of_Some [OF wf c2 r] obtain w where
        w: "record_of ?s r ''DEST_STATE_ABR'' = Some w" by auto
      show "?P r = state_row ?s it r"
        by (cases v; cases w) (auto simp: v w state_row_def)
    qed
    from filter_rows_cong [of ?s ?P "state_row ?s it", OF this] show ?thesis by simp
  qed
  finally show ?thesis by (simp add: standardize_rows)
qed

lemma fd_default:
  assumes "\<not> country_pair (columns (standardize_columns df))"
    and "\<not> state_pair (columns (standardize_columns df))"
  shows "filter_domestic df it = Inr (standardize_columns df)"
  using assms by (auto simp: filter_domestic_def country_pair_def state_pair_def Let_def)

lemma keep_aa_col:
  assumes "''MKT_UNIQUE_CARRIER'' \<in> set (columns (standardize_columns df)) \<or>
           ''OP_UNIQUE_CARRIER'' \<in> set (columns (standardize_columns df))"
  shows "keep_aa df um =
     (case series (standardize_columns df) (carrier_field (columns (standardize_columns df)) um) of
        Inl e \<Rightarrow> Inl e
      | Inr s \<Rightarrow> Inr (loc (standardize_columns df) (eq_str s ''AA'')))"
    and "carrier_field (columns (standardize_columns df)) um \<in> set (columns (standardize_columns df))"
  using assms by (auto simp: keep_aa_def carrier_field_def Let_def)

lemma keep_aa_rows:
  assumes wf: "wf_frame (standardize_columns df)"
    and c: "''MKT_UNIQUE_CARRIER'' \<in> set (columns (standardize_columns df)) \<or>
           ''OP_UNIQUE_CARRIER'' \<in> set (columns (standardize_columns df))"
  shows "keep_aa df um =
     Inr (rows_where (standardize_columns df)
            (carrier_field (columns (standardize_columns df)) um) ''AA'')"
proof -
  let ?s = "standardize_columns df"
  let ?f = "carrier_field (columns ?s) um"
  note k = keep_aa_col [OF c, of um]
  have "keep_aa df um = Inr (?s\<lparr>rows := filter (\<lambda>r. the (record_of ?s r ?f) = Some ''AA'') (rows ?s)\<rparr>)"
    by (simp add: k(1) series_wf [OF wf k(2)] mask_simps)
  also have "\<dots> = Inr (?s\<lparr>rows := filter (\<lambda>r. record_of ?s r ?f = Some (Some ''AA'')) (rows ?s)\<rparr>)"
  proof -
    have "\<And>r. r \<in> set (rows ?s) \<Longrightarrow>
        (the (record_of ?s r ?f) = Some ''AA'') = (record_of ?s r ?f = Some (Some ''AA''))"
      using record_of_Some [OF wf k(2)] by fastforce
    from filter_rows_cong [of ?s, OF this] show ?thesis by simp
  qed
  finally show ?thesis by (simp add: rows_where_def)
qed

lemma keep_aa_missing:
  assumes "''MKT_UNIQUE_CARRIER'' \<notin> set (columns (standardize_columns df))"
          "''OP_UNIQUE_CARRIER'' \<notin> set (columns (standardize_columns df))"
  shows "keep_aa df um = Inl (KeyError ''Missing carrier column; have: '' (columns (standardize_columns df)))"
  using assms by (simp add: keep_aa_def Let_def)

lemma astype_string_id: "astype_string v = v"
  by (cases v) (simp_all add: astype_string_def)

lemma astype_col_id: "astype_col out t = out"
proof -
  have "\<And>r. map (\<lambda>i. if columns out ! i = t then astype_string (r ! i) else r ! i) [0..<length r] = r"
    by (simp add: astype_string_id map_nth cong: if_cong)
  then show ?thesis by (simp add: astype_col_def)
qed

lemma loc_cols_wf:
  assumes wf: "wf_frame df" and sub: "set cols \<subseteq> set (columns df)"
  shows "loc_cols df cols =
     \<lparr>columns = cols, rows = map (\<lambda>r. map (\<lambda>c. the (record_of df r c)) cols) (rows df)\<rparr>"
proof -
  from wf have d: "distinct (columns df)" by (simp add: wf_frame_def)
  have "\<forall>c\<in>set cols. \<exists>i. i < length (columns df) \<and> columns df ! i = c \<and> positions (columns df) c = [i]"
    using positions_unique [OF d] sub by blast
  then obtain g where g: "\<And>c. c \<in> set cols \<Longrightarrow>
      g c < length (columns df) \<and> columns df ! g c = c \<and> positions (columns df) c = [g c]"
    by metis
  have idx: "concat (map (positions (columns df)) cols) = map g cols"
  proof -
    have "map (positions (columns df)) cols = map (\<lambda>c. [g c]) cols"
      using g by (intro map_cong [OF refl]) simp
    then have "concat (map (positions (columns df)) cols) = concat (map (\<lambda>c. [g c]) cols)"
      by (rule arg_cong)
    then show ?thesis by simp
  qed
  have c: "map (\<lambda>i. columns df ! i) (map g cols) = cols"
    using g by (simp add: map_idI)
  have r: "map (\<lambda>r. map (\<lambda>i. r ! i) (map g cols)) (rows df) =
           map (\<lambda>r. map (\<lambda>c. the (record_of df r c)) cols) (rows df)"
  proof (rule map_cong [OF refl])
    fix r assume r: "r \<in> set (rows df)"
    have "\<And>c. c \<in> set cols \<Longrightarrow> r ! g c = the (record_of df r c)"
    proof -
      fix c assume "c \<in> set cols"
      with g have "g c < length (columns df)" "columns df ! g c = c" by auto
      with record_of_nth [OF wf r, of "g c"] show "r ! g c = the (record_of df r c)" by simp
    qed
    then show "map (\<lambda>i. r ! i) (map g cols) = map (\<lambda>c. the (record_of df r c)) cols"
      by simp
  qed
  show ?thesis unfolding loc_cols_def Let_def idx c r by (rule refl)
qed

lemma select_output_cols_wf:
  assumes wf: "wf_frame (standardize_columns df)"
    and kept: "kept = filter (\<lambda>c. c \<in> set (columns (standardize_columns df))) OUTPUT_COLS"
  shows "select_output_cols df =
     (if kept = [] then DataFrame
      else \<lparr>columns = kept,
            rows = map (\<lambda>r. map (\<lambda>c. the (record_of (standardize_columns df) r c)) kept) (rows df)\<rparr>)"
proof -
  have "set kept \<subseteq> set (columns (standardize_columns df))"
    unfolding kept by auto
  from loc_cols_wf [OF wf this] show ?thesis
    by (simp add: select_output_cols_def Let_def astype_col_id kept [symmetric] standardize_rows)
qed

lemma record_of_project:
  assumes wf: "wf_frame s" and r: "r \<in> set (rows s)"
    and out: "out = \<lparr>columns = kept, rows = rs\<rparr>"
    and kept: "kept = filter (\<lambda>c. c \<in> set (columns s)) K"
  shows "record_of out (map (\<lambda>c. the (record_of s r c)) kept) = record_of s r |` set K"
proof (rule ext)
  fix c
  from wf r have len: "length (columns s) = length r" by (auto simp: wf_frame_def list_all_iff)
  have l: "record_of out (map (\<lambda>c. the (record_of s r c)) kept) c =
        (if c \<in> set kept then Some (the (record_of s r c)) else None)"
    by (simp add: record_of_def out map_of_zip_map)
  have "record_of s r c = None" if "c \<notin> set (columns s)"
    using that len by (simp add: record_of_def map_of_zip_is_None)
  moreover have "\<exists>v. record_of s r c = Some v" if "c \<in> set (columns s)"
    using record_of_Some [OF wf that r] .
  ultimately show "record_of out (map (\<lambda>c. the (record_of s r c)) kept) c = (record_of s r |` set K) c"
    unfolding l by (auto simp: kept restrict_map_def)
qed

section \<open>The append loop\<close>

lemma append_loop_gen:
  "append_loop months (out, h) =
     (out @ (case nonempty_frames months of
                [] \<Rightarrow> []
              | d # ds \<Rightarrow> (if h then [] else [Header (columns d)]) @ concat (map (\<lambda>d. map Row (rows d)) (d # ds))),
      h \<or> nonempty_frames months \<noteq> [])"
proof (induction months arbitrary: out h)
  case Nil
  show ?case by (simp add: nonempty_frames_def)
next
  case (Cons m months)
  show ?case
  proof (cases m)
    case (Inl e)
    then show ?thesis using Cons [of out h] by (simp add: nonempty_frames_def)
  next
    case (Inr d)
    show ?thesis
    proof (cases "frame_empty d")
      case True
      with Inr show ?thesis using Cons [of out h]
        by (simp add: nonempty_frames_def append_write_def)
    next
      case False
      with Inr show ?thesis using Cons [of "to_csv d out (\<not> h)" True]
        by (simp add: nonempty_frames_def append_write_def to_csv_def split: list.splits)
    qed
  qed
qed

lemmas std_eval = standardize_columns_conv norm_to_actual_def CANON_MAP_def
  rename_label_def norm_eval

section \<open>Schema reconciler: idempotence\<close>

text \<open>
  Claim C4. For every batch, reconciling twice gives what reconciling once gives. In
  particular a batch whose columns are all canonical names is left as it is: every
  alias list contains its canonical name (it starts with it), so a canonical column
  binds to itself.
\<close>

theorem standardize_columns_idempotent:
  "standardize_columns (standardize_columns df) = standardize_columns df \<and>
   (set (columns df) \<subseteq> fst ` set CANON_MAP \<longrightarrow> standardize_columns df = df) \<and>
   list_all (\<lambda>(canon, aliases). canon \<in> set aliases) CANON_MAP"
proof (intro conjI impI)
  let ?rm = "build_rename_map (norm_to_actual (columns df)) CANON_MAP []"
  let ?cols' = "map (rename_label ?rm) (columns df)"
  let ?rm' = "build_rename_map (norm_to_actual ?cols') CANON_MAP []"
  have "map (rename_label ?rm') ?cols' = ?cols'"
    using second_pass_rename [OF CANON_MAP_ok refl refl, of "columns df"] by (simp add: map_idI)
  then show "standardize_columns (standardize_columns df) = standardize_columns df"
    by (simp add: standardize_columns_conv [of "standardize_columns df"])
       (simp add: standardize_columns_conv [of df])
next
  assume sub: "set (columns df) \<subseteq> fst ` set CANON_MAP"
  have "map (rename_label (build_rename_map (norm_to_actual (columns df)) CANON_MAP []))
          (columns df) = columns df"
  proof (rule map_idI)
    fix c assume "c \<in> set (columns df)"
    with sub have "c \<in> fst ` set CANON_MAP" by blast
    from canonical_rename [OF CANON_MAP_ok refl this] show
      "rename_label (build_rename_map (norm_to_actual (columns df)) CANON_MAP []) c = c" .
  qed
  then show "standardize_columns df = df"
    by (simp add: standardize_columns_conv [of df])
next
  show "list_all (\<lambda>(canon, aliases). canon \<in> set aliases) CANON_MAP"
    using table_ok_hd [OF CANON_MAP_ok] by (fastforce simp: list_all_iff)
qed

theorem standardize_columns_idempotent_witness:
  "set (columns \<lparr>columns = [''FL_DATE'', ''OP_UNIQUE_CARRIER'', ''ORIGIN_STATE_ABR''],
                 rows = [[Some ''2023-01-01'', Some ''AA'', None]]\<rparr>) \<subseteq> fst ` set CANON_MAP \<and>
   standardize_columns \<lparr>columns = [''FL_DATE'', ''OP_UNIQUE_CARRIER'', ''ORIGIN_STATE_ABR''],
                        rows = [[Some ''2023-01-01'', Some ''AA'', None]]\<rparr>
     = \<lparr>columns = [''FL_DATE'', ''OP_UNIQUE_CARRIER'', ''ORIGIN_STATE_ABR''],
        rows = [[Some ''2023-01-01'', Some ''AA'', None]]\<rparr>"
proof -
  let ?df = "\<lparr>columns = [''FL_DATE'', ''OP_UNIQUE_CARRIER'', ''ORIGIN_STATE_ABR''],
              rows = [[Some ''2023-01-01'', Some ''AA'', None]]\<rparr>"
  have h: "set (columns ?df) \<subseteq> fst ` set CANON_MAP"
    by (simp add: CANON_MAP_def)
  with standardize_columns_idempotent [of ?df] show ?thesis by blast
qed

section \<open>Domestic classifier: the territory flag in the country branch\<close>

text \<open>
  Claim C10. For every batch whose reconciled columns hold both country-name columns,
  the classifier gives the same result for \<open>include_territories\<close> true and false: the
  flag is read in the state-abbreviation branch only.
\<close>

theorem include_territories_irrelevant:
  assumes "country_pair (columns (standardize_columns df))"
  shows "filter_domestic df True = filter_domestic df False"
  using assms by (simp add: filter_domestic_def country_pair_def Let_def)

theorem include_territories_irrelevant_witness:
  "country_pair (columns (standardize_columns
      \<lparr>columns = [''OriginCountryName'', ''DestCountryName'', ''OriginState'', ''DestState''],
       rows = [[Some ''UNITED STATES'', Some ''UNITED STATES'', Some ''PR'', Some ''NY'']]\<rparr>)) \<and>
   filter_domestic
      \<lparr>columns = [''OriginCountryName'', ''DestCountryName'', ''OriginState'', ''DestState''],
       rows = [[Some ''UNITED STATES'', Some ''UNITED STATES'', Some ''PR'', Some ''NY'']]\<rparr> True
   = filter_domestic
      \<lparr>columns = [''OriginCountryName'', ''DestCountryName'', ''OriginState'', ''DestState''],
       rows = [[Some ''UNITED STATES'', Some ''UNITED STATES'', Some ''PR'', Some ''NY'']]\<rparr> False"
proof -
  let ?df = "\<lparr>columns = [''OriginCountryName'', ''DestCountryName'', ''OriginState'', ''DestState''],
       rows = [[Some ''UNITED STATES'', Some ''UNITED STATES'', Some ''PR'', Some ''NY'']]\<rparr>"
  have h: "country_pair (columns (standardize_columns ?df))"
    by (simp add: std_eval country_pair_def)
  from h include_territories_irrelevant [OF h] show ?thesis by (rule conjI)
qed

section \<open>Carrier selector: no carrier column\<close>

text \<open>
  Claim C3. For every batch whose reconciled columns hold neither
  \<^verbatim>\<open>OP_UNIQUE_CARRIER\<close> nor \<^verbatim>\<open>MKT_UNIQUE_CARRIER\<close>, the carrier selector raises:
  the error says that the carrier column is missing and lists the columns of the
  reconciled batch. The rows play no part, and no frame is returned.
\<close>

theorem keep_aa_missing_carrier:
  assumes "''OP_UNIQUE_CARRIER'' \<notin> set (columns (standardize_columns df))"
    and "''MKT_UNIQUE_CARRIER'' \<notin> set (columns (standardize_columns df))"
  shows "keep_aa df use_marketing =
           Inl (KeyError ''Missing carrier column; have: '' (columns (standardize_columns df))) \<and>
         (\<forall>rs. keep_aa (df\<lparr>rows := rs\<rparr>) use_marketing = keep_aa df use_marketing)"
proof -
  have "keep_aa d use_marketing =
          Inl (KeyError ''Missing carrier column; have: '' (columns (standardize_columns df)))"
    if "columns d = columns df" for d
  proof -
    from that have "columns (standardize_columns d) = columns (standardize_columns df)"
      by (simp add: standardize_columns_conv)
    with assms keep_aa_missing [of d use_marketing] show ?thesis by simp
  qed
  from this [of df] this [of "df\<lparr>rows := _\<rparr>"] show ?thesis by simp
qed

theorem keep_aa_missing_carrier_witness:
  "keep_aa \<lparr>columns = [''FlightDate'', ''Origin''],
            rows = [[Some ''2023-01-01'', Some ''DFW'']]\<rparr> False =
     Inl (KeyError ''Missing carrier column; have: '' [''FL_DATE'', ''ORIGIN''])"
proof -
  let ?df = "\<lparr>columns = [''FlightDate'', ''Origin''], rows = [[Some ''2023-01-01'', Some ''DFW'']]\<rparr>"
  have s: "columns (standardize_columns ?df) = [''FL_DATE'', ''ORIGIN'']"
    by (simp add: std_eval)
  have "''OP_UNIQUE_CARRIER'' \<notin> set (columns (standardize_columns ?df))"
    and "''MKT_UNIQUE_CARRIER'' \<notin> set (columns (standardize_columns ?df))"
    by (simp_all add: s)
  from keep_aa_missing_carrier [OF this, of False] show ?thesis by (simp add: s)
qed

section \<open>Domestic classifier: the fallback chain\<close>

text \<open>
  The fallback chain on a batch whose reconciled columns are distinct. The branch of the
  domestic classifier is fixed by which canonical columns the reconciled batch holds,
  and exactly one branch applies. With both country-name columns it keeps exactly the
  rows whose two country names are the string UNITED STATES, compared exactly. Otherwise,
  with both state-abbreviation columns, it keeps exactly the rows whose two state
  abbreviations are not null and, when \<open>include_territories\<close> is false, are both outside
  PR, VI, GU, AS, MP. Otherwise it keeps every row. The reconciled columns, and with them
  the branch, are the same whatever rows the batch holds.
\<close>

theorem filter_domestic_branches:
  assumes "wf_frame (standardize_columns df)"
  shows "(let s = standardize_columns df in
      (country_pair (columns s) \<longrightarrow>
         filter_domestic df include_territories = Inr (s\<lparr>rows := filter (us_row s) (rows df)\<rparr>)) \<and>
      (\<not> country_pair (columns s) \<and> state_pair (columns s) \<longrightarrow>
         filter_domestic df include_territories =
           Inr (s\<lparr>rows := filter (state_row s include_territories) (rows df)\<rparr>)) \<and>
      (\<not> country_pair (columns s) \<and> \<not> state_pair (columns s) \<longrightarrow>
         filter_domestic df include_territories = Inr s) \<and>
      (\<forall>rs. columns (standardize_columns (df\<lparr>rows := rs\<rparr>)) = columns s))"
  using fd_country [OF assms, of include_territories]
    fd_state [OF assms, of include_territories]
    fd_default [of df include_territories]
  by (simp add: Let_def standardize_columns_rows_upd)

theorem filter_domestic_branches_witness:
  "filter_domestic
      \<lparr>columns = [''OriginCountryName'', ''DestCountryName'', ''OriginState'', ''DestState''],
       rows = [[Some ''UNITED STATES'', Some ''UNITED STATES'', Some ''PR'', Some ''NY''],
               [Some ''UNITED STATES'', Some ''CANADA'', Some ''TX'', Some ''ON''],
               [Some ''United States'', Some ''UNITED STATES'', Some ''TX'', Some ''NY'']]\<rparr> False
     = Inr \<lparr>columns = [''ORIGIN_COUNTRY_NAME'', ''DEST_COUNTRY_NAME'', ''ORIGIN_STATE_ABR'', ''DEST_STATE_ABR''],
            rows = [[Some ''UNITED STATES'', Some ''UNITED STATES'', Some ''PR'', Some ''NY'']]\<rparr>
   \<and> filter_domestic
      \<lparr>columns = [''OriginState'', ''DestState''],
       rows = [[Some ''PR'', Some ''NY''], [Some ''TX'', None], [Some ''TX'', Some ''NY'']]\<rparr> False
     = Inr \<lparr>columns = [''ORIGIN_STATE_ABR'', ''DEST_STATE_ABR''],
            rows = [[Some ''TX'', Some ''NY'']]\<rparr>
   \<and> filter_domestic
      \<lparr>columns = [''OriginState'', ''DestState''],
       rows = [[Some ''PR'', Some ''NY''], [Some ''TX'', None], [Some ''TX'', Some ''NY'']]\<rparr> True
     = Inr \<lparr>columns = [''ORIGIN_STATE_ABR'', ''DEST_STATE_ABR''],
            rows = [[Some ''PR'', Some ''NY''], [Some ''TX'', Some ''NY'']]\<rparr>
   \<and> filter_domestic \<lparr>columns = [''Origin'', ''DestState''], rows = [[Some ''SJU'', Some ''PR'']]\<rparr> False
     = Inr \<lparr>columns = [''ORIGIN'', ''DEST_STATE_ABR''], rows = [[Some ''SJU'', Some ''PR'']]\<rparr>"
proof -
  let ?a = "\<lparr>columns = [''OriginCountryName'', ''DestCountryName'', ''OriginState'', ''DestState''],
       rows = [[Some ''UNITED STATES'', Some ''UNITED STATES'', Some ''PR'', Some ''NY''],
               [Some ''UNITED STATES'', Some ''CANADA'', Some ''TX'', Some ''ON''],
               [Some ''United States'', Some ''UNITED STATES'', Some ''TX'', Some ''NY'']]\<rparr>"
  let ?b = "\<lparr>columns = [''OriginState'', ''DestState''],
       rows = [[Some ''PR'', Some ''NY''], [Some ''TX'', None], [Some ''TX'', Some ''NY'']]\<rparr>"
  let ?c = "\<lparr>columns = [''Origin'', ''DestState''], rows = [[Some ''SJU'', Some ''PR'']]\<rparr>"
  have sa: "standardize_columns ?a = ?a\<lparr>columns := [''ORIGIN_COUNTRY_NAME'', ''DEST_COUNTRY_NAME'', ''ORIGIN_STATE_ABR'', ''DEST_STATE_ABR'']\<rparr>"
    by (simp add: std_eval)
  have sb: "standardize_columns ?b = ?b\<lparr>columns := [''ORIGIN_STATE_ABR'', ''DEST_STATE_ABR'']\<rparr>"
    by (simp add: std_eval)
  have sc: "standardize_columns ?c = ?c\<lparr>columns := [''ORIGIN'', ''DEST_STATE_ABR'']\<rparr>"
    by (simp add: std_eval)
  have wa: "wf_frame (standardize_columns ?a)" by (simp add: sa wf_frame_def)
  have wb: "wf_frame (standardize_columns ?b)" by (simp add: sb wf_frame_def)
  have wc: "wf_frame (standardize_columns ?c)" by (simp add: sc wf_frame_def)
  note ev = country_pair_def state_pair_def us_row_def state_row_def record_of_def
    US_TERRITORY_STATE_ABR_def Let_def
  have 1: "filter_domestic ?a False = Inr \<lparr>columns = [''ORIGIN_COUNTRY_NAME'', ''DEST_COUNTRY_NAME'', ''ORIGIN_STATE_ABR'', ''DEST_STATE_ABR''],
            rows = [[Some ''UNITED STATES'', Some ''UNITED STATES'', Some ''PR'', Some ''NY'']]\<rparr>"
    using filter_domestic_branches [OF wa, of False] by (simp add: sa ev)
  have 2: "filter_domestic ?b False = Inr \<lparr>columns = [''ORIGIN_STATE_ABR'', ''DEST_STATE_ABR''],
            rows = [[Some ''TX'', Some ''NY'']]\<rparr>"
    using filter_domestic_branches [OF wb, of False] by (simp add: sb ev)
  have 3: "filter_domestic ?b True = Inr \<lparr>columns = [''ORIGIN_STATE_ABR'', ''DEST_STATE_ABR''],
            rows = [[Some ''PR'', Some ''NY''], [Some ''TX'', Some ''NY'']]\<rparr>"
    using filter_domestic_branches [OF wb, of True] by (simp add: sb ev)
  have 4: "filter_domestic ?c False = Inr \<lparr>columns = [''ORIGIN'', ''DEST_STATE_ABR''], rows = [[Some ''SJU'', Some ''PR'']]\<rparr>"
    using filter_domestic_branches [OF wc, of False] by (simp add: sc ev)
  from 1 2 3 4 show ?thesis by (intro conjI)
qed

text \<open>
  Claim C1. For every batch the branch of the domestic classifier is fixed by which
  canonical columns are present, and with both country-name columns present it keeps
  exactly the rows whose two country names are the string UNITED STATES. The code misses
  a case. The batch below has three distinct columns, of which \<^verbatim>\<open>DestCountryName\<close>
  normalizes to the same key as \<^verbatim>\<open>DEST_COUNTRY_NAME\<close>; reconciling renames it onto
  the label the other column already carries, the selection by that label is then no
  longer a series, and the classifier raises instead of keeping the one row, whose
  country names are both UNITED STATES.
\<close>

theorem filter_domestic_label_collision:
  "distinct (columns \<lparr>columns = [''ORIGIN_COUNTRY_NAME'', ''DEST_COUNTRY_NAME'', ''DestCountryName''],
                      rows = [[Some ''UNITED STATES'', Some ''UNITED STATES'', Some ''UNITED STATES'']]\<rparr>) \<and>
   columns (standardize_columns
      \<lparr>columns = [''ORIGIN_COUNTRY_NAME'', ''DEST_COUNTRY_NAME'', ''DestCountryName''],
       rows = [[Some ''UNITED STATES'', Some ''UNITED STATES'', Some ''UNITED STATES'']]\<rparr>)
     = [''ORIGIN_COUNTRY_NAME'', ''DEST_COUNTRY_NAME'', ''DEST_COUNTRY_NAME''] \<and>
   filter_domestic
      \<lparr>columns = [''ORIGIN_COUNTRY_NAME'', ''DEST_COUNTRY_NAME'', ''DestCountryName''],
       rows = [[Some ''UNITED STATES'', Some ''UNITED STATES'', Some ''UNITED STATES'']]\<rparr> True
     = Inl ValueError \<and>
   filter_domestic
      \<lparr>columns = [''ORIGIN_COUNTRY_NAME'', ''DEST_COUNTRY_NAME'', ''DestCountryName''],
       rows = [[Some ''UNITED STATES'', Some ''UNITED STATES'', Some ''UNITED STATES'']]\<rparr> False
     = Inl ValueError"
proof -
  let ?df = "\<lparr>columns = [''ORIGIN_COUNTRY_NAME'', ''DEST_COUNTRY_NAME'', ''DestCountryName''],
       rows = [[Some ''UNITED STATES'', Some ''UNITED STATES'', Some ''UNITED STATES'']]\<rparr>"
  have s: "standardize_columns ?df =
      \<lparr>columns = [''ORIGIN_COUNTRY_NAME'', ''DEST_COUNTRY_NAME'', ''DEST_COUNTRY_NAME''],
       rows = [[Some ''UNITED STATES'', Some ''UNITED STATES'', Some ''UNITED STATES'']]\<rparr>"
    by (simp add: std_eval)
  have o: "series (standardize_columns ?df) ''ORIGIN_COUNTRY_NAME'' = Inr [Some ''UNITED STATES'']"
    by (simp add: s series_def positions_def)
  have d: "series (standardize_columns ?df) ''DEST_COUNTRY_NAME'' = Inl ValueError"
    by (simp add: s series_def positions_def)
  have c: "''ORIGIN_COUNTRY_NAME'' \<in> set (columns (standardize_columns ?df))"
    "''DEST_COUNTRY_NAME'' \<in> set (columns (standardize_columns ?df))"
    by (simp_all add: s)
  have f: "filter_domestic ?df it = Inl ValueError" for it
    using c by (simp add: filter_domestic_def Let_def o d)
  have "distinct (columns ?df)" by simp
  moreover have "columns (standardize_columns ?df) =
      [''ORIGIN_COUNTRY_NAME'', ''DEST_COUNTRY_NAME'', ''DEST_COUNTRY_NAME'']"
    by (simp add: s)
  ultimately show ?thesis using f [of True] f [of False] by (intro conjI)
qed

section \<open>Carrier selector: the field and the rows\<close>

text \<open>
  The carrier selector on a batch whose reconciled columns are distinct and hold at
  least one of \<^verbatim>\<open>MKT_UNIQUE_CARRIER\<close> and \<^verbatim>\<open>OP_UNIQUE_CARRIER\<close>: it keeps exactly
  the rows whose value in the resolved field is the string AA, the carrier code the
  function is written for, compared exactly. With both fields present the resolved field
  is the marketing one when \<open>prefer_marketing\<close> holds and the operating one otherwise;
  with the preferred field absent it is the other one.
\<close>

theorem keep_aa_selects:
  assumes "wf_frame (standardize_columns df)"
    and "''MKT_UNIQUE_CARRIER'' \<in> set (columns (standardize_columns df)) \<or>
         ''OP_UNIQUE_CARRIER'' \<in> set (columns (standardize_columns df))"
  shows "(let s = standardize_columns df; field = carrier_field (columns s) prefer_marketing in
      keep_aa df prefer_marketing = Inr (rows_where s field ''AA'') \<and>
      (''MKT_UNIQUE_CARRIER'' \<in> set (columns s) \<and> ''OP_UNIQUE_CARRIER'' \<in> set (columns s) \<longrightarrow>
         field = (if prefer_marketing then ''MKT_UNIQUE_CARRIER'' else ''OP_UNIQUE_CARRIER'')) \<and>
      ((if prefer_marketing then ''MKT_UNIQUE_CARRIER'' else ''OP_UNIQUE_CARRIER'') \<notin> set (columns s) \<longrightarrow>
         field = (if prefer_marketing then ''OP_UNIQUE_CARRIER'' else ''MKT_UNIQUE_CARRIER'')))"
  using keep_aa_rows [OF assms, of prefer_marketing]
  by (simp add: Let_def carrier_field_def)

theorem keep_aa_selects_witness:
  "keep_aa \<lparr>columns = [''Operating_Airline'', ''Reporting_Airline'', ''Origin''],
            rows = [[Some ''AA'', Some ''DL'', Some ''DFW''],
                    [Some ''DL'', Some ''AA'', Some ''LGA''],
                    [Some ''aa'', Some ''AA'', Some ''JFK'']]\<rparr> False
     = Inr \<lparr>columns = [''OP_UNIQUE_CARRIER'', ''MKT_UNIQUE_CARRIER'', ''ORIGIN''],
            rows = [[Some ''AA'', Some ''DL'', Some ''DFW'']]\<rparr>
   \<and> keep_aa \<lparr>columns = [''Operating_Airline'', ''Reporting_Airline'', ''Origin''],
            rows = [[Some ''AA'', Some ''DL'', Some ''DFW''],
                    [Some ''DL'', Some ''AA'', Some ''LGA''],
                    [Some ''aa'', Some ''AA'', Some ''JFK'']]\<rparr> True
     = Inr \<lparr>columns = [''OP_UNIQUE_CARRIER'', ''MKT_UNIQUE_CARRIER'', ''ORIGIN''],
            rows = [[Some ''DL'', Some ''AA'', Some ''LGA''],
                    [Some ''aa'', Some ''AA'', Some ''JFK'']]\<rparr>
   \<and> keep_aa \<lparr>columns = [''Reporting_Airline'', ''Origin''],
            rows = [[Some ''DL'', Some ''DFW''], [Some ''AA'', Some ''LGA'']]\<rparr> False
     = Inr \<lparr>columns = [''MKT_UNIQUE_CARRIER'', ''ORIGIN''],
            rows = [[Some ''AA'', Some ''LGA'']]\<rparr>"
proof -
  let ?a = "\<lparr>columns = [''Operating_Airline'', ''Reporting_Airline'', ''Origin''],
            rows = [[Some ''AA'', Some ''DL'', Some ''DFW''],
                    [Some ''DL'', Some ''AA'', Some ''LGA''],
                    [Some ''aa'', Some ''AA'', Some ''JFK'']]\<rparr>"
  let ?b = "\<lparr>columns = [''Reporting_Airline'', ''Origin''],
            rows = [[Some ''DL'', Some ''DFW''], [Some ''AA'', Some ''LGA'']]\<rparr>"
  have sa: "standardize_columns ?a = ?a\<lparr>columns := [''OP_UNIQUE_CARRIER'', ''MKT_UNIQUE_CARRIER'', ''ORIGIN'']\<rparr>"
    by (simp add: std_eval)
  have sb: "standardize_columns ?b = ?b\<lparr>columns := [''MKT_UNIQUE_CARRIER'', ''ORIGIN'']\<rparr>"
    by (simp add: std_eval)
  have wa: "wf_frame (standardize_columns ?a)" by (simp add: sa wf_frame_def)
  have wb: "wf_frame (standardize_columns ?b)" by (simp add: sb wf_frame_def)
  have ca: "''MKT_UNIQUE_CARRIER'' \<in> set (columns (standardize_columns ?a)) \<or>
            ''OP_UNIQUE_CARRIER'' \<in> set (columns (standardize_columns ?a))" by (simp add: sa)
  have cb: "''MKT_UNIQUE_CARRIER'' \<in> set (columns (standardize_columns ?b)) \<or>
            ''OP_UNIQUE_CARRIER'' \<in> set (columns (standardize_columns ?b))" by (simp add: sb)
  note ev = rows_where_def carrier_field_def record_of_def Let_def
  have 1: "keep_aa ?a False = Inr \<lparr>columns = [''OP_UNIQUE_CARRIER'', ''MKT_UNIQUE_CARRIER'', ''ORIGIN''],
            rows = [[Some ''AA'', Some ''DL'', Some ''DFW'']]\<rparr>"
    using keep_aa_selects [OF wa ca, of False] by (simp add: sa ev)
  have 2: "keep_aa ?a True = Inr \<lparr>columns = [''OP_UNIQUE_CARRIER'', ''MKT_UNIQUE_CARRIER'', ''ORIGIN''],
            rows = [[Some ''DL'', Some ''AA'', Some ''LGA''],
                    [Some ''aa'', Some ''AA'', Some ''JFK'']]\<rparr>"
    using keep_aa_selects [OF wa ca, of True] by (simp add: sa ev)
  have 3: "keep_aa ?b False = Inr \<lparr>columns = [''MKT_UNIQUE_CARRIER'', ''ORIGIN''],
            rows = [[Some ''AA'', Some ''LGA'']]\<rparr>"
    using keep_aa_selects [OF wb cb, of False] by (simp add: sb ev)
  from 1 2 3 show ?thesis by (intro conjI)
qed

text \<open>
  Claim C2. For every batch in which a carrier field is present, the selector resolves
  the field from \<open>prefer_marketing\<close> and keeps exactly the rows whose value in it is the
  carrier code, compared exactly. The code misses the same case as in the classifier. The
  batch below has three distinct columns, of which \<^verbatim>\<open>Op_Unique_Carrier\<close> normalizes to
  the same key as \<^verbatim>\<open>OP_UNIQUE_CARRIER\<close>; reconciling gives both the same label, and
  the selector raises, under either value of the flag, instead of keeping the one row,
  whose operating carrier is AA.
\<close>

theorem keep_aa_label_collision:
  "distinct (columns \<lparr>columns = [''OP_UNIQUE_CARRIER'', ''Op_Unique_Carrier'', ''ORIGIN''],
                      rows = [[Some ''AA'', Some ''AA'', Some ''DFW'']]\<rparr>) \<and>
   columns (standardize_columns
      \<lparr>columns = [''OP_UNIQUE_CARRIER'', ''Op_Unique_Carrier'', ''ORIGIN''],
       rows = [[Some ''AA'', Some ''AA'', Some ''DFW'']]\<rparr>)
     = [''OP_UNIQUE_CARRIER'', ''OP_UNIQUE_CARRIER'', ''ORIGIN''] \<and>
   keep_aa \<lparr>columns = [''OP_UNIQUE_CARRIER'', ''Op_Unique_Carrier'', ''ORIGIN''],
            rows = [[Some ''AA'', Some ''AA'', Some ''DFW'']]\<rparr> False
     = Inl ValueError \<and>
   keep_aa \<lparr>columns = [''OP_UNIQUE_CARRIER'', ''Op_Unique_Carrier'', ''ORIGIN''],
            rows = [[Some ''AA'', Some ''AA'', Some ''DFW'']]\<rparr> True
     = Inl ValueError"
proof -
  let ?df = "\<lparr>columns = [''OP_UNIQUE_CARRIER'', ''Op_Unique_Carrier'', ''ORIGIN''],
            rows = [[Some ''AA'', Some ''AA'', Some ''DFW'']]\<rparr>"
  have s: "standardize_columns ?df =
      \<lparr>columns = [''OP_UNIQUE_CARRIER'', ''OP_UNIQUE_CARRIER'', ''ORIGIN''],
       rows = [[Some ''AA'', Some ''AA'', Some ''DFW'']]\<rparr>"
    by (simp add: std_eval)
  have o: "series (standardize_columns ?df) ''OP_UNIQUE_CARRIER'' = Inl ValueError"
    by (simp add: s series_def positions_def)
  have c: "''OP_UNIQUE_CARRIER'' \<in> set (columns (standardize_columns ?df))"
    "''MKT_UNIQUE_CARRIER'' \<notin> set (columns (standardize_columns ?df))"
    by (simp_all add: s)
  have f: "keep_aa ?df False = Inl ValueError"
    using c by (simp add: keep_aa_def Let_def o)
  have t: "keep_aa ?df True = Inl ValueError"
    using c by (simp add: keep_aa_def Let_def o)
  have "distinct (columns ?df)" by simp
  moreover have "columns (standardize_columns ?df) =
      [''OP_UNIQUE_CARRIER'', ''OP_UNIQUE_CARRIER'', ''ORIGIN'']"
    by (simp add: s)
  ultimately show ?thesis using f t by (intro conjI)
qed

section \<open>Domestic classifier: what it leaves alone\<close>

text \<open>
  Claim C7, as amended. The classifier reconciles the column names and, that apart, only
  filters rows: for every batch whose reconciled columns are distinct it returns a batch
  whose columns are those of the reconciled input and whose rows are a subsequence of
  the input's rows. For a batch that is already reconciled the columns are therefore
  unchanged. For a batch whose reconciled columns lack both the country-name pair and
  the state-abbreviation pair the result is the reconciled batch, with every row.
\<close>

theorem filter_domestic_frame:
  assumes "wf_frame (standardize_columns df)"
  shows "\<exists>out. filter_domestic df include_territories = Inr out \<and>
           columns out = columns (standardize_columns df) \<and>
           subseq (rows out) (rows df) \<and>
           (standardize_columns df = df \<longrightarrow> columns out = columns df) \<and>
           (\<not> country_pair (columns (standardize_columns df)) \<and>
            \<not> state_pair (columns (standardize_columns df)) \<longrightarrow> out = standardize_columns df)"
proof -
  let ?s = "standardize_columns df"
  consider (country) "country_pair (columns ?s)"
    | (state) "\<not> country_pair (columns ?s)" "state_pair (columns ?s)"
    | (none) "\<not> country_pair (columns ?s)" "\<not> state_pair (columns ?s)"
    by blast
  then show ?thesis
  proof cases
    case country
    from fd_country [OF assms this, of include_territories] country show ?thesis
      by auto
  next
    case state
    from fd_state [OF assms this, of include_territories] state show ?thesis
      by auto
  next
    case none
    from fd_default [OF this, of include_territories] show ?thesis
      by (auto simp: standardize_rows)
  qed
qed

theorem filter_domestic_frame_witness:
  "wf_frame (standardize_columns
      \<lparr>columns = [''FL_DATE'', ''ORIGIN_STATE_ABR'', ''DEST_STATE_ABR''],
       rows = [[Some ''2023-01-01'', Some ''TX'', Some ''NY''], [Some ''2023-01-02'', None, Some ''NY'']]\<rparr>) \<and>
   (\<exists>out. filter_domestic
      \<lparr>columns = [''FL_DATE'', ''ORIGIN_STATE_ABR'', ''DEST_STATE_ABR''],
       rows = [[Some ''2023-01-01'', Some ''TX'', Some ''NY''], [Some ''2023-01-02'', None, Some ''NY'']]\<rparr> True = Inr out \<and>
      columns out = [''FL_DATE'', ''ORIGIN_STATE_ABR'', ''DEST_STATE_ABR''] \<and>
      subseq (rows out) [[Some ''2023-01-01'', Some ''TX'', Some ''NY''], [Some ''2023-01-02'', None, Some ''NY'']])"
proof -
  define df where "df = \<lparr>columns = [''FL_DATE'', ''ORIGIN_STATE_ABR'', ''DEST_STATE_ABR''],
       rows = [[Some ''2023-01-01'', Some ''TX'', Some ''NY''], [Some ''2023-01-02'', None, Some ''NY'']]\<rparr>"
  have s: "standardize_columns df = df"
    by (simp add: df_def std_eval)
  have wf: "wf_frame (standardize_columns df)"
    by (simp add: s) (simp add: df_def wf_frame_def)
  from filter_domestic_frame [OF wf, of True] obtain out where
    o: "filter_domestic df True = Inr out"
      "columns out = columns (standardize_columns df)"
      "subseq (rows out) (rows df)"
    by blast
  from o(2) have c: "columns out = columns df" by (simp only: s)
  from o(1) c o(3) have "\<exists>out. filter_domestic df True = Inr out \<and>
      columns out = columns df \<and> subseq (rows out) (rows df)"
    by blast
  with wf show ?thesis by (simp add: df_def)
qed

text \<open>
  As the claim is written it fails: a batch with the single column \<^verbatim>\<open>FlightDate\<close>
  lacks both pairs, and the classifier returns it with the column renamed to
  \<^verbatim>\<open>FL_DATE\<close>.
\<close>

theorem filter_domestic_frame_counterexample:
  "filter_domestic \<lparr>columns = [''FlightDate''], rows = [[Some ''2023-01-01'']]\<rparr> True
     = Inr \<lparr>columns = [''FL_DATE''], rows = [[Some ''2023-01-01'']]\<rparr> \<and>
   columns \<lparr>columns = [''FL_DATE''], rows = [[Some ''2023-01-01'']]\<rparr>
     \<noteq> columns \<lparr>columns = [''FlightDate''], rows = [[Some ''2023-01-01'']]\<rparr>"
proof -
  let ?df = "\<lparr>columns = [''FlightDate''], rows = [[Some ''2023-01-01'']]\<rparr>"
  have s: "standardize_columns ?df = \<lparr>columns = [''FL_DATE''], rows = [[Some ''2023-01-01'']]\<rparr>"
    by (simp add: std_eval)
  have "\<not> country_pair (columns (standardize_columns ?df))"
    and "\<not> state_pair (columns (standardize_columns ?df))"
    by (simp_all add: s country_pair_def state_pair_def)
  from fd_default [OF this, of True] show ?thesis by (simp add: s)
qed

section \<open>Projection: the retained columns and rows\<close>

lemma list_all2_map_self: "(\<And>x. x \<in> set xs \<Longrightarrow> P x (f x)) \<Longrightarrow> list_all2 P xs (map f xs)"
  by (induction xs) auto

text \<open>
  Claim C6, as amended. For every batch whose reconciled columns are distinct, the
  projection retains exactly the columns of the reconciled batch that belong to the
  output field list, in the order of that list, and its rows are those of the input,
  same count and same order, each reduced to the retained columns. When no column is
  retained the result is the empty frame, with no rows and no columns. For a batch that
  is already reconciled the retained columns are its own.
\<close>

theorem select_output_cols_projects:
  assumes "wf_frame (standardize_columns df)"
  shows "(let s = standardize_columns df;
              kept = filter (\<lambda>c. c \<in> set (columns s)) OUTPUT_COLS;
              out = select_output_cols df
          in (kept = [] \<longrightarrow> out = \<lparr>columns = [], rows = []\<rparr>) \<and>
             (kept \<noteq> [] \<longrightarrow>
                columns out = kept \<and>
                list_all2 (\<lambda>r r'. record_of out r' = record_of s r |` set OUTPUT_COLS)
                  (rows df) (rows out)) \<and>
             (standardize_columns df = df \<longrightarrow>
                kept = filter (\<lambda>c. c \<in> set (columns df)) OUTPUT_COLS))"
proof -
  let ?s = "standardize_columns df"
  let ?kept = "filter (\<lambda>c. c \<in> set (columns ?s)) OUTPUT_COLS"
  let ?out = "select_output_cols df"
  note sel = select_output_cols_wf [OF assms refl]
  have a: "?kept = [] \<Longrightarrow> ?out = \<lparr>columns = [], rows = []\<rparr>"
    by (simp add: sel DataFrame_def)
  have b: "columns ?out = ?kept \<and>
           list_all2 (\<lambda>r r'. record_of ?out r' = record_of ?s r |` set OUTPUT_COLS) (rows df) (rows ?out)"
    if ne: "?kept \<noteq> []"
  proof -
    let ?f = "\<lambda>r. map (\<lambda>c. the (record_of ?s r c)) ?kept"
    from ne have out: "?out = \<lparr>columns = ?kept, rows = map ?f (rows df)\<rparr>"
      by (simp add: sel)
    have "list_all2 (\<lambda>r r'. record_of ?out r' = record_of ?s r |` set OUTPUT_COLS)
            (rows df) (map ?f (rows df))"
    proof (rule list_all2_map_self)
      fix r assume "r \<in> set (rows df)"
      then have "r \<in> set (rows ?s)" by (simp add: standardize_rows)
      from record_of_project [OF assms this out refl]
      show "record_of ?out (?f r) = record_of ?s r |` set OUTPUT_COLS" .
    qed
    moreover have "rows ?out = map ?f (rows df)" "columns ?out = ?kept"
      by (simp_all add: out)
    ultimately show ?thesis by simp
  qed
  have c: "standardize_columns df = df \<Longrightarrow> ?kept = filter (\<lambda>c. c \<in> set (columns df)) OUTPUT_COLS"
    by simp
  from a b c show ?thesis unfolding Let_def by blast
qed

theorem select_output_cols_projects_witness:
  "columns (select_output_cols
      \<lparr>columns = [''Origin'', ''Tail_Number'', ''FlightDate''],
       rows = [[Some ''DFW'', Some ''N123AA'', Some ''2023-01-01''], [Some ''LGA'', None, Some ''2023-01-02'']]\<rparr>)
     = [''FL_DATE'', ''ORIGIN''] \<and>
   length (rows (select_output_cols
      \<lparr>columns = [''Origin'', ''Tail_Number'', ''FlightDate''],
       rows = [[Some ''DFW'', Some ''N123AA'', Some ''2023-01-01''], [Some ''LGA'', None, Some ''2023-01-02'']]\<rparr>)) = 2 \<and>
   select_output_cols \<lparr>columns = [''Tail_Number''], rows = [[Some ''N123AA'']]\<rparr>
     = \<lparr>columns = [], rows = []\<rparr>"
proof -
  let ?a = "\<lparr>columns = [''Origin'', ''Tail_Number'', ''FlightDate''],
       rows = [[Some ''DFW'', Some ''N123AA'', Some ''2023-01-01''], [Some ''LGA'', None, Some ''2023-01-02'']]\<rparr>"
  let ?b = "\<lparr>columns = [''Tail_Number''], rows = [[Some ''N123AA'']]\<rparr>"
  have sa: "standardize_columns ?a = ?a\<lparr>columns := [''ORIGIN'', ''Tail_Number'', ''FL_DATE'']\<rparr>"
    by (simp add: std_eval)
  have sb: "standardize_columns ?b = ?b"
    by (simp add: std_eval)
  have wa: "wf_frame (standardize_columns ?a)" by (simp add: sa wf_frame_def)
  have wb: "wf_frame (standardize_columns ?b)" by (simp add: sb wf_frame_def)
  have 1: "columns (select_output_cols ?a) = [''FL_DATE'', ''ORIGIN''] \<and>
           length (rows (select_output_cols ?a)) = 2"
    using select_output_cols_projects [OF wa]
    by (auto simp: sa OUTPUT_COLS_def Let_def dest: list_all2_lengthD)
  have 2: "select_output_cols ?b = \<lparr>columns = [], rows = []\<rparr>"
    using select_output_cols_projects [OF wb]
    by (simp add: sb OUTPUT_COLS_def Let_def)
  from 1 2 show ?thesis by simp
qed

text \<open>
  As the claim is written it fails: no column of the batch with the single column
  \<^verbatim>\<open>FlightDate\<close> belongs to the output field list, yet the projection is not the
  empty frame: it holds the column under its canonical name, with its row.
\<close>

theorem select_output_cols_counterexample:
  "set (columns \<lparr>columns = [''FlightDate''], rows = [[Some ''2023-01-01'']]\<rparr>) \<inter> set OUTPUT_COLS = {} \<and>
   select_output_cols \<lparr>columns = [''FlightDate''], rows = [[Some ''2023-01-01'']]\<rparr>
     = \<lparr>columns = [''FL_DATE''], rows = [[Some ''2023-01-01'']]\<rparr>"
proof -
  let ?df = "\<lparr>columns = [''FlightDate''], rows = [[Some ''2023-01-01'']]\<rparr>"
  have s: "standardize_columns ?df = \<lparr>columns = [''FL_DATE''], rows = [[Some ''2023-01-01'']]\<rparr>"
    by (simp add: std_eval)
  have wf: "wf_frame (standardize_columns ?df)" by (simp add: s wf_frame_def)
  have k: "filter (\<lambda>c. c \<in> set (columns (standardize_columns ?df))) OUTPUT_COLS = [''FL_DATE'']"
    by (simp add: s OUTPUT_COLS_def)
  have "select_output_cols ?df = \<lparr>columns = [''FL_DATE''], rows = [[Some ''2023-01-01'']]\<rparr>"
    by (simp add: select_output_cols_wf [OF wf k [symmetric]] s record_of_def)
  moreover have "set (columns ?df) \<inter> set OUTPUT_COLS = {}"
    by (simp add: OUTPUT_COLS_def)
  ultimately show ?thesis by simp
qed

section \<open>Appending writer: the header flag\<close>

lemma filter_is_Header_rows:
  "filter is_Header (concat (map (\<lambda>d. map Row (rows d)) ds)) = []"
  by (induction ds) (auto simp: filter_empty_conv)

text \<open>
  Claim C8. Appending an empty batch writes nothing and returns the header flag as it
  was. Appending a non-empty batch writes a header line exactly when the flag is false,
  then the rows, and returns true. A flag that is true stays true. So over a whole run,
  which starts with an empty file and the flag false, the file holds one header line,
  that of the first non-empty batch, followed by the rows of the non-empty batches in
  order; a run with no non-empty batch writes nothing.
\<close>

theorem append_write_header:
  "(frame_empty df \<longrightarrow> append_write df out h = (out, h)) \<and>
   (\<not> frame_empty df \<longrightarrow>
      append_write df out h =
        (out @ (if h then [] else [Header (columns df)]) @ map Row (rows df), True)) \<and>
   (h \<longrightarrow> snd (append_write df out h)) \<and>
   main_append months =
     (case nonempty_frames months of
        [] \<Rightarrow> ([], False)
      | d # ds \<Rightarrow> (Header (columns d) # concat (map (\<lambda>d. map Row (rows d)) (d # ds)), True)) \<and>
   (nonempty_frames months \<noteq> [] \<longrightarrow>
      length (filter is_Header (fst (main_append months))) = 1)"
proof -
  have m: "main_append months =
     (case nonempty_frames months of
        [] \<Rightarrow> ([], False)
      | d # ds \<Rightarrow> (Header (columns d) # concat (map (\<lambda>d. map Row (rows d)) (d # ds)), True))"
    by (simp add: main_append_def append_loop_gen split: list.splits)
  have c: "length (filter is_Header (fst (main_append months))) = 1"
    if "nonempty_frames months \<noteq> []"
  proof -
    from that obtain d ds where "nonempty_frames months = d # ds"
      by (cases "nonempty_frames months") auto
    then have "fst (main_append months) =
        Header (columns d) # concat (map (\<lambda>d. map Row (rows d)) (d # ds))"
      by (simp add: m)
    then show ?thesis
      using filter_is_Header_rows [of "d # ds"] by simp
  qed
  from m c show ?thesis
    by (simp add: append_write_def to_csv_def)
qed

theorem append_write_header_witness:
  "append_write \<lparr>columns = [''FL_DATE''], rows = []\<rparr> [Header [''FL_DATE''], Row [Some ''2023-01-01'']] True
     = ([Header [''FL_DATE''], Row [Some ''2023-01-01'']], True) \<and>
   append_write \<lparr>columns = [''FL_DATE''], rows = [[Some ''2023-01-02'']]\<rparr> [] False
     = ([Header [''FL_DATE''], Row [Some ''2023-01-02'']], True) \<and>
   main_append [Inr \<lparr>columns = [], rows = []\<rparr>, Inl ValueError,
                Inr \<lparr>columns = [''FL_DATE''], rows = [[Some ''2023-01-01'']]\<rparr>,
                Inr \<lparr>columns = [''FL_DATE''], rows = [[Some ''2023-02-01''], [Some ''2023-02-02'']]\<rparr>]
     = ([Header [''FL_DATE''], Row [Some ''2023-01-01''], Row [Some ''2023-02-01''], Row [Some ''2023-02-02'']],
        True)"
proof -
  have 1: "append_write \<lparr>columns = [''FL_DATE''], rows = []\<rparr> [Header [''FL_DATE''], Row [Some ''2023-01-01'']] True
     = ([Header [''FL_DATE''], Row [Some ''2023-01-01'']], True)"
    using append_write_header [of "\<lparr>columns = [''FL_DATE''], rows = []\<rparr>"
        "[Header [''FL_DATE''], Row [Some ''2023-01-01'']]" True "[]"]
    by (simp add: frame_empty_def)
  have 2: "append_write \<lparr>columns = [''FL_DATE''], rows = [[Some ''2023-01-02'']]\<rparr> [] False
     = ([Header [''FL_DATE''], Row [Some ''2023-01-02'']], True)"
    using append_write_header [of "\<lparr>columns = [''FL_DATE''], rows = [[Some ''2023-01-02'']]\<rparr>"
        "[]" False "[]"]
    by (simp add: frame_empty_def)
  have 3: "main_append [Inr \<lparr>columns = [], rows = []\<rparr>, Inl ValueError,
                Inr \<lparr>columns = [''FL_DATE''], rows = [[Some ''2023-01-01'']]\<rparr>,
                Inr \<lparr>columns = [''FL_DATE''], rows = [[Some ''2023-02-01''], [Some ''2023-02-02'']]\<rparr>]
     = ([Header [''FL_DATE''], Row [Some ''2023-01-01''], Row [Some ''2023-02-01''], Row [Some ''2023-02-02'']],
        True)"
    using append_write_header [of DataFrame "[]" False
        "[Inr \<lparr>columns = [], rows = []\<rparr>, Inl ValueError,
          Inr \<lparr>columns = [''FL_DATE''], rows = [[Some ''2023-01-01'']]\<rparr>,
          Inr \<lparr>columns = [''FL_DATE''], rows = [[Some ''2023-02-01''], [Some ''2023-02-02'']]\<rparr>]"]
    by (simp add: nonempty_frames_def frame_empty_def)
  from 1 2 3 show ?thesis by (intro conjI)
qed

section \<open>Column normalizer and resolution\<close>

lemma no_binding_unchanged:
  assumes "\<forall>(canon, aliases)\<in>set CANON_MAP. resolve (columns df) aliases = None"
  shows "standardize_columns df = df"
proof -
  let ?rm = "build_rename_map (norm_to_actual (columns df)) CANON_MAP []"
  have "rename_label ?rm c = c" for c
    using rename_cases [OF refl, where c = c and cols = "columns df" and items = CANON_MAP]
  proof
    assume "map_of ?rm c = None \<and> rename_label ?rm c = c"
    then show ?thesis by simp
  next
    assume "\<exists>X As. map_of ?rm c = Some X \<and> rename_label ?rm c = X \<and> (X, As) \<in> set CANON_MAP \<and>
              target (norm_to_actual (columns df)) As = Some c"
    then obtain X As where "(X, As) \<in> set CANON_MAP"
      "target (norm_to_actual (columns df)) As = Some c" by blast
    with assms show ?thesis by (auto simp: target_resolve)
  qed
  then show ?thesis by (simp add: standardize_columns_conv [of df] map_idI)
qed

text \<open>
  Claim C5, as amended. The normalizer uppercases a name and then deletes every
  character outside A-Z and 0-9; on a name of ASCII characters this is the same as
  stripping what is not an ASCII letter or digit and then uppercasing. For every column
  list and every canonical field, resolution scans the field's aliases in declared
  order and binds the first alias whose normalized form is that of some actual column
  to such a column (the last one with that normalized form), so the field gets at most
  one binding, and the bound column is renamed to the field. No alias matching is not an
  error: the rename map is left as it is, and a batch in which no field resolves is
  returned unchanged.
\<close>

theorem normalizer_and_resolution:
  "norm s = filter in_AZ09 (py_upper s) \<and>
   ((\<forall>c\<in>set s. is_ascii c) \<longrightarrow> norm s = strip_then_upper s) \<and>
   bind_aliases (norm_to_actual cols) canon aliases rename_map =
     (case resolve cols aliases of
        None \<Rightarrow> rename_map
      | Some (a, c) \<Rightarrow> AList.update c canon rename_map) \<and>
   (\<forall>a c. (canon, aliases) \<in> set CANON_MAP \<and> resolve cols aliases = Some (a, c) \<longrightarrow>
      map_of (build_rename_map (norm_to_actual cols) CANON_MAP []) c = Some canon) \<and>
   ((\<forall>(canon, aliases)\<in>set CANON_MAP. resolve (columns df) aliases = None) \<longrightarrow>
      standardize_columns df = df)"
proof (intro conjI impI allI)
  show "norm s = filter in_AZ09 (py_upper s)" by (simp add: norm_def)
next
  assume "\<forall>c\<in>set s. is_ascii c"
  then show "norm s = strip_then_upper s" by (rule norm_ascii)
next
  show "bind_aliases (norm_to_actual cols) canon aliases rename_map =
     (case resolve cols aliases of
        None \<Rightarrow> rename_map
      | Some (a, c) \<Rightarrow> AList.update c canon rename_map)"
    by (rule bind_aliases_resolve)
next
  fix a c
  assume h: "(canon, aliases) \<in> set CANON_MAP \<and> resolve cols aliases = Some (a, c)"
  then have "target (norm_to_actual cols) aliases = Some c" by (simp add: target_resolve)
  with h rename_bound [OF CANON_MAP_ok refl, of canon aliases cols c]
  show "map_of (build_rename_map (norm_to_actual cols) CANON_MAP []) c = Some canon" by blast
next
  assume "\<forall>(canon, aliases)\<in>set CANON_MAP. resolve (columns df) aliases = None"
  then show "standardize_columns df = df" by (rule no_binding_unchanged)
qed

theorem normalizer_and_resolution_witness:
  "norm ''Flight_Date'' = strip_then_upper ''Flight_Date'' \<and>
   resolve [''fl_date'', ''FlightDate'', ''Flight_Date''] [''FL_DATE'', ''FLIGHT_DATE'', ''FLIGHTDATE'']
     = Some (''FL_DATE'', ''fl_date'') \<and>
   map_of (build_rename_map (norm_to_actual [''fl_date'', ''FlightDate'', ''Flight_Date'']) CANON_MAP [])
      ''fl_date'' = Some ''FL_DATE'' \<and>
   standardize_columns \<lparr>columns = [''Tail_Number''], rows = [[Some ''N123AA'']]\<rparr>
     = \<lparr>columns = [''Tail_Number''], rows = [[Some ''N123AA'']]\<rparr>"
proof -
  note th = normalizer_and_resolution [of "''Flight_Date''"
      "[''fl_date'', ''FlightDate'', ''Flight_Date'']" "''FL_DATE''"
      "[''FL_DATE'', ''FLIGHT_DATE'', ''FLIGHTDATE'']" "[]"
      "\<lparr>columns = [''Tail_Number''], rows = [[Some ''N123AA'']]\<rparr>"]
  have a: "\<forall>c\<in>set ''Flight_Date''. is_ascii c"
    by (simp add: is_ascii_def)
  have r: "resolve [''fl_date'', ''FlightDate'', ''Flight_Date''] [''FL_DATE'', ''FLIGHT_DATE'', ''FLIGHTDATE'']
     = Some (''FL_DATE'', ''fl_date'')"
    by (simp add: resolve_def norm_eval)
  have m: "(''FL_DATE'', [''FL_DATE'', ''FLIGHT_DATE'', ''FLIGHTDATE'']) \<in> set CANON_MAP"
    by (simp add: CANON_MAP_def)
  have n: "\<forall>(canon, aliases)\<in>set CANON_MAP. resolve [''Tail_Number''] aliases = None"
    by (simp add: CANON_MAP_def resolve_def norm_eval)
  from th a have 1: "norm ''Flight_Date'' = strip_then_upper ''Flight_Date''" by blast
  from th r m have 2: "map_of (build_rename_map (norm_to_actual [''fl_date'', ''FlightDate'', ''Flight_Date'']) CANON_MAP [])
      ''fl_date'' = Some ''FL_DATE''" by blast
  from th n have 3: "standardize_columns \<lparr>columns = [''Tail_Number''], rows = [[Some ''N123AA'']]\<rparr>
     = \<lparr>columns = [''Tail_Number''], rows = [[Some ''N123AA'']]\<rparr>" by simp
  from 1 r 2 3 show ?thesis by (intro conjI)
qed

text \<open>
  As the claim is written, with stripping before uppercasing, it fails on a character
  whose upper case is made of ASCII letters without the character being one itself:
  sharp s (U+00DF) becomes SS in the code and nothing in the claim's order.
\<close>

theorem norm_counterexample:
  "norm [CHR 0xDF] = ''SS'' \<and> strip_then_upper [CHR 0xDF] = [] \<and>
   norm [CHR 0xDF] \<noteq> strip_then_upper [CHR 0xDF]"
  by (simp add: norm_def strip_then_upper_def py_upper_def py_upper_char_def in_AZ09_def
      ascii_alnum_def ascii_lowercase_def ascii_uppercase_def digits_def)

end
